theory Spec2Isabelle
  imports Main "HOL-Library.AList" "HOL-Library.Sublist"
begin

section \<open>JavaScript values and JSON text\<close>

text \<open>
  The program is TypeScript run by Bun. A JavaScript string is represented by the bytes of
  its UTF-8 encoding (HOL's \<open>string\<close>), the value \<open>undefined\<close> by \<open>None\<close> of an option
  type. A number is kept as the literal that denotes it, and is printed as that literal:
  the program never computes with a number. JavaScript reads the literal as a double and
  prints the double anew (\<open>1.0\<close> as \<open>1\<close>), and it writes a lone surrogate of a string as
  an escape, so what is stated below about the text that \<open>JSON.stringify\<close> writes is
  stated for values without numbers whose strings are ASCII (\<open>plain\<close>), and what is
  stated about a stored API key is stated for strings.
\<close>

datatype json =
    JNull
  | JBool bool
  | JNum string
  | JStr string
  | JArr "json list"
  | JObj "(string \<times> json) list"

subsection \<open>Property order of an object\<close>

definition is_digit :: "char \<Rightarrow> bool" where
  "is_digit c = (48 \<le> (of_char c :: nat) \<and> (of_char c :: nat) \<le> 57)"

definition digits_value :: "string \<Rightarrow> int" where
  "digits_value k = foldl (\<lambda>a c. 10 * a + ((of_char c :: int) - 48)) 0 k"

text \<open>An array index is a canonical decimal numeral below \<open>2^32 - 1\<close>; such keys come
  first in an object's property order, in ascending order, the other keys follow in the
  order of their creation.\<close>

definition is_array_index :: "string \<Rightarrow> bool" where
  "is_array_index k =
     (k \<noteq> [] \<and> list_all is_digit k \<and> (if hd k = CHR ''0'' then length k = 1 else True)
      \<and> digits_value k \<le> 4294967294)"

fun insert_index :: "string \<Rightarrow> json \<Rightarrow> (string \<times> json) list \<Rightarrow> (string \<times> json) list" where
  "insert_index k v [] = [(k, v)]"
| "insert_index k v (p # ps) =
     (if is_array_index (fst p) \<and> digits_value (fst p) < digits_value k
      then p # insert_index k v ps
      else (k, v) # p # ps)"

text \<open>\<open>obj[k] = v\<close> on an ordinary object: an existing property keeps its place.\<close>

definition set_prop :: "(string \<times> json) list \<Rightarrow> string \<Rightarrow> json \<Rightarrow> (string \<times> json) list" where
  "set_prop ps k v =
     (if k \<in> fst ` set ps then AList.update k v ps
      else if is_array_index k then insert_index k v ps
      else ps @ [(k, v)])"


text \<open>\<open>value.k\<close>: reading a property of \<open>null\<close> is a TypeError (\<open>None\<close> here), a
  primitive or an array has no property of the names the program reads.\<close>

fun get_prop :: "json \<Rightarrow> string \<Rightarrow> json option option" where
  "get_prop JNull k = None"
| "get_prop (JObj ps) k = Some (map_of ps k)"
| "get_prop v k = Some None"

text \<open>\<open>value?.k\<close> on a possibly undefined value.\<close>

fun opt_chain :: "json option \<Rightarrow> string \<Rightarrow> json option" where
  "opt_chain None k = None"
| "opt_chain (Some JNull) k = None"
| "opt_chain (Some (JObj ps)) k = map_of ps k"
| "opt_chain (Some v) k = None"

text \<open>Truthiness. A number literal is taken to be falsy when all its mantissa digits are
  zero; a literal whose double is zero by underflow is outside this reading.\<close>

definition num_is_zero :: "string \<Rightarrow> bool" where
  "num_is_zero lit =
     list_all (\<lambda>c. if is_digit c then c = CHR ''0'' else True)
       (takeWhile (\<lambda>c. c \<noteq> CHR ''e'' \<and> c \<noteq> CHR ''E'') lit)"

fun truthy :: "json option \<Rightarrow> bool" where
  "truthy None = False"
| "truthy (Some JNull) = False"
| "truthy (Some (JBool b)) = b"
| "truthy (Some (JNum lit)) = (\<not> num_is_zero lit)"
| "truthy (Some (JStr s)) = (s \<noteq> [])"
| "truthy (Some (JArr vs)) = True"
| "truthy (Some (JObj ps)) = True"

text \<open>The string a template literal \<open>`${v}`\<close> puts in place of a value.\<close>

fun join :: "string \<Rightarrow> string list \<Rightarrow> string" where
  "join sep [] = []"
| "join sep [x] = x"
| "join sep (x # y # ys) = x @ sep @ join sep (y # ys)"

fun js_toString :: "json option \<Rightarrow> string" where
  "js_toString None = ''undefined''"
| "js_toString (Some JNull) = ''null''"
| "js_toString (Some (JBool b)) = (if b then ''true'' else ''false'')"
| "js_toString (Some (JNum lit)) = lit"
| "js_toString (Some (JStr s)) = s"
| "js_toString (Some (JArr vs)) =
     join '','' (map (\<lambda>v. if v = JNull then [] else js_toString (Some v)) vs)"
| "js_toString (Some (JObj ps)) = ''[object Object]''"

subsection \<open>\<open>JSON.stringify(value, null, 2)\<close>\<close>

definition hex_digit :: "nat \<Rightarrow> char" where
  "hex_digit d = (if d < 10 then char_of (48 + d) else char_of (87 + d))"

definition quote_char :: "char \<Rightarrow> string" where
  "quote_char c =
     (if c = CHR 0x08 then [CHR 0x5C, CHR ''b'']
      else if c = CHR 0x09 then [CHR 0x5C, CHR ''t'']
      else if c = CHR 0x0A then [CHR 0x5C, CHR ''n'']
      else if c = CHR 0x0C then [CHR 0x5C, CHR ''f'']
      else if c = CHR 0x0D then [CHR 0x5C, CHR ''r'']
      else if c = CHR 0x22 then [CHR 0x5C, CHR 0x22]
      else if c = CHR 0x5C then [CHR 0x5C, CHR 0x5C]
      else if (of_char c :: nat) < 32 then
        [CHR 0x5C, CHR ''u'', CHR ''0'', CHR ''0'',
         hex_digit ((of_char c :: nat) div 16), hex_digit ((of_char c :: nat) mod 16)]
      else [c])"

definition quote :: "string \<Rightarrow> string" where
  "quote s = CHR 0x22 # concat (map quote_char s) @ [CHR 0x22]"

definition newline :: string where
  "newline = [CHR 0x0A]"

fun stringify :: "string \<Rightarrow> json \<Rightarrow> string" where
  "stringify ind JNull = ''null''"
| "stringify ind (JBool b) = (if b then ''true'' else ''false'')"
| "stringify ind (JNum lit) = lit"
| "stringify ind (JStr s) = quote s"
| "stringify ind (JArr vs) =
     (if vs = [] then ''[]''
      else ''['' @ newline @ (ind @ ''  '')
           @ join ('','' @ newline @ (ind @ ''  '')) (map (stringify (ind @ ''  '')) vs)
           @ newline @ ind @ '']'')"
| "stringify ind (JObj ps) =
     (if ps = [] then ''{}''
      else ''{'' @ newline @ (ind @ ''  '')
           @ join ('','' @ newline @ (ind @ ''  ''))
               (map (\<lambda>p. quote (fst p) @ '': '' @ stringify (ind @ ''  '') (snd p)) ps)
           @ newline @ ind @ ''}'')"

definition JSON_stringify :: "json \<Rightarrow> string" where
  "JSON_stringify v = stringify [] v"

subsection \<open>\<open>JSON.parse(text)\<close>\<close>

definition is_ws :: "char \<Rightarrow> bool" where
  "is_ws c = (c = CHR 0x20 \<or> c = CHR 0x09 \<or> c = CHR 0x0A \<or> c = CHR 0x0D)"

definition skip_ws :: "string \<Rightarrow> string" where
  "skip_ws s = dropWhile is_ws s"

definition hex_val :: "char \<Rightarrow> nat option" where
  "hex_val c =
     (let n = (of_char c :: nat) in
      if 48 \<le> n \<and> n \<le> 57 then Some (n - 48)
      else if 97 \<le> n \<and> n \<le> 102 then Some (n - 87)
      else if 65 \<le> n \<and> n \<le> 70 then Some (n - 55)
      else None)"

definition hex4 :: "char \<Rightarrow> char \<Rightarrow> char \<Rightarrow> char \<Rightarrow> nat option" where
  "hex4 a b c d =
     (case (hex_val a, hex_val b, hex_val c, hex_val d) of
        (Some x, Some y, Some z, Some w) \<Rightarrow> Some (4096 * x + 256 * y + 16 * z + w)
      | _ \<Rightarrow> None)"

text \<open>The UTF-8 bytes of a code point (a lone surrogate is encoded like any other code
  point of its size).\<close>

definition utf8 :: "nat \<Rightarrow> string" where
  "utf8 n =
     (if n < 128 then [char_of n]
      else if n < 2048 then [char_of (192 + n div 64), char_of (128 + n mod 64)]
      else if n < 65536 then
        [char_of (224 + n div 4096), char_of (128 + (n div 64) mod 64), char_of (128 + n mod 64)]
      else
        [char_of (240 + n div 262144), char_of (128 + (n div 4096) mod 64),
         char_of (128 + (n div 64) mod 64), char_of (128 + n mod 64)])"

definition unescape :: "char \<Rightarrow> char option" where
  "unescape e =
     (if e = CHR 0x22 then Some (CHR 0x22)
      else if e = CHR 0x5C then Some (CHR 0x5C)
      else if e = CHR ''/'' then Some (CHR ''/'')
      else if e = CHR ''b'' then Some (CHR 0x08)
      else if e = CHR ''f'' then Some (CHR 0x0C)
      else if e = CHR ''n'' then Some (CHR 0x0A)
      else if e = CHR ''r'' then Some (CHR 0x0D)
      else if e = CHR ''t'' then Some (CHR 0x09)
      else None)"

definition prepend :: "string \<Rightarrow> (string \<times> string) option \<Rightarrow> (string \<times> string) option" where
  "prepend pre r = map_option (\<lambda>p. (pre @ fst p, snd p)) r"

text \<open>The characters of a string literal after its opening quote: the decoded string
  and the text after the closing quote.\<close>

fun parse_chars :: "string \<Rightarrow> (string \<times> string) option" where
  "parse_chars [] = None"
| "parse_chars (c # cs) =
     (if c = CHR 0x22 then Some ([], cs)
      else if c = CHR 0x5C then
        (case cs of
           [] \<Rightarrow> None
         | e # r \<Rightarrow>
             if e = CHR ''u'' then
               (case r of
                  h1 # h2 # h3 # h4 # r1 \<Rightarrow>
                    (case hex4 h1 h2 h3 h4 of
                       None \<Rightarrow> None
                     | Some hi \<Rightarrow>
                         if 55296 \<le> hi \<and> hi < 56320 then
                           (case r1 of
                              b # u # l1 # l2 # l3 # l4 # r2 \<Rightarrow>
                                (case (if b = CHR 0x5C \<and> u = CHR ''u'' then hex4 l1 l2 l3 l4 else None) of
                                   None \<Rightarrow> prepend (utf8 hi) (parse_chars r1)
                                 | Some lo \<Rightarrow>
                                     if 56320 \<le> lo \<and> lo < 57344
                                     then prepend (utf8 (65536 + (hi - 55296) * 1024 + (lo - 56320)))
                                            (parse_chars r2)
                                     else prepend (utf8 hi) (parse_chars r1))
                            | _ \<Rightarrow> prepend (utf8 hi) (parse_chars r1))
                         else prepend (utf8 hi) (parse_chars r1))
                | _ \<Rightarrow> None)
             else
               (case unescape e of
                  None \<Rightarrow> None
                | Some d \<Rightarrow> prepend [d] (parse_chars r)))
      else if (of_char c :: nat) < 32 then None
      else prepend [c] (parse_chars cs))"

text \<open>A number literal: \<open>-? (0 | [1-9][0-9]*) (. [0-9]+)? ([eE] [+-]? [0-9]+)?\<close>.\<close>

definition parse_digits :: "string \<Rightarrow> (string \<times> string) option" where
  "parse_digits s =
     (if takeWhile is_digit s = [] then None
      else Some (takeWhile is_digit s, dropWhile is_digit s))"

definition parse_int :: "string \<Rightarrow> (string \<times> string) option" where
  "parse_int s =
     (case s of
        [] \<Rightarrow> None
      | c # cs \<Rightarrow> if c = CHR ''0'' then Some (''0'', cs) else parse_digits s)"

definition parse_frac :: "string \<Rightarrow> (string \<times> string) option" where
  "parse_frac s =
     (case s of
        [] \<Rightarrow> Some ([], s)
      | c # cs \<Rightarrow> if c = CHR ''.'' then prepend ''.'' (parse_digits cs) else Some ([], s))"

definition parse_exp :: "string \<Rightarrow> (string \<times> string) option" where
  "parse_exp s =
     (case s of
        [] \<Rightarrow> Some ([], s)
      | c # cs \<Rightarrow>
          if c = CHR ''e'' \<or> c = CHR ''E'' then
            (case cs of
               [] \<Rightarrow> None
             | d # ds \<Rightarrow>
                 if d = CHR ''+'' \<or> d = CHR ''-'' then prepend [c, d] (parse_digits ds)
                 else prepend [c] (parse_digits cs))
          else Some ([], s))"

definition parse_number :: "string \<Rightarrow> (string \<times> string) option" where
  "parse_number s =
     (case (case s of
              [] \<Rightarrow> None
            | c # cs \<Rightarrow> if c = CHR ''-'' then prepend ''-'' (parse_int cs) else parse_int s) of
        None \<Rightarrow> None
      | Some (i, r) \<Rightarrow>
          (case parse_frac r of
             None \<Rightarrow> None
           | Some (f, r1) \<Rightarrow> prepend (i @ f) (parse_exp r1)))"

text \<open>A value, the elements of an array after \<open>[\<close> and the members of an object after
  \<open>{\<close>. The first argument bounds the depth of the calls. \<open>JSON_parse\<close> below starts
  with twice the length of the text and two more, which is never used up: a call passes
  one unit less to the calls it makes, and each of them is on a text at least one
  character shorter, but for \<open>parse_elements\<close>, which parses its first value from the
  text it was given (lemma \<open>parse_value_fuel\<close> below).\<close>

fun parse_value :: "nat \<Rightarrow> string \<Rightarrow> (json \<times> string) option"
  and parse_elements :: "nat \<Rightarrow> json list \<Rightarrow> string \<Rightarrow> (json list \<times> string) option"
  and parse_members ::
    "nat \<Rightarrow> (string \<times> json) list \<Rightarrow> string \<Rightarrow> ((string \<times> json) list \<times> string) option"
where
  "parse_value 0 s = None"
| "parse_value (Suc n) s =
     (case skip_ws s of
        [] \<Rightarrow> None
      | c # cs \<Rightarrow>
          if c = CHR ''{'' then
            (case skip_ws cs of
               [] \<Rightarrow> None
             | d # ds \<Rightarrow>
                 if d = CHR ''}'' then Some (JObj [], ds)
                 else map_option (apfst JObj) (parse_members n [] cs))
          else if c = CHR ''['' then
            (case skip_ws cs of
               [] \<Rightarrow> None
             | d # ds \<Rightarrow>
                 if d = CHR '']'' then Some (JArr [], ds)
                 else map_option (apfst JArr) (parse_elements n [] cs))
          else if c = CHR 0x22 then map_option (apfst JStr) (parse_chars cs)
          else if c = CHR ''-'' \<or> is_digit c then map_option (apfst JNum) (parse_number (c # cs))
          else if prefix ''true'' (c # cs) then Some (JBool True, drop 4 (c # cs))
          else if prefix ''false'' (c # cs) then Some (JBool False, drop 5 (c # cs))
          else if prefix ''null'' (c # cs) then Some (JNull, drop 4 (c # cs))
          else None)"
| "parse_elements 0 acc s = None"
| "parse_elements (Suc n) acc s =
     (case parse_value n s of
        None \<Rightarrow> None
      | Some (v, r) \<Rightarrow>
          (case skip_ws r of
             [] \<Rightarrow> None
           | c # cs \<Rightarrow>
               if c = CHR '','' then parse_elements n (acc @ [v]) cs
               else if c = CHR '']'' then Some (acc @ [v], cs)
               else None))"
| "parse_members 0 acc s = None"
| "parse_members (Suc n) acc s =
     (case skip_ws s of
        [] \<Rightarrow> None
      | q # cs \<Rightarrow>
          if q = CHR 0x22 then
            (case parse_chars cs of
               None \<Rightarrow> None
             | Some (k, r) \<Rightarrow>
                 (case skip_ws r of
                    [] \<Rightarrow> None
                  | d # ds \<Rightarrow>
                      if d = CHR '':'' then
                        (case parse_value n ds of
                           None \<Rightarrow> None
                         | Some (v, r2) \<Rightarrow>
                             (case skip_ws r2 of
                                [] \<Rightarrow> None
                              | e # es \<Rightarrow>
                                  if e = CHR '','' then parse_members n (set_prop acc k v) es
                                  else if e = CHR ''}'' then Some (set_prop acc k v, es)
                                  else None))
                      else None))
          else None)"

text \<open>\<open>JSON.parse\<close>: a value between white space and nothing else, or a SyntaxError
  (\<open>None\<close>).\<close>

definition JSON_parse :: "string \<Rightarrow> json option" where
  "JSON_parse text =
     (case parse_value (2 * length text + 2) text of
        None \<Rightarrow> None
      | Some (v, r) \<Rightarrow> if skip_ws r = [] then Some v else None)"

text \<open>The string of a number without a fraction, as a template literal prints it.\<close>

function show_nat :: "nat \<Rightarrow> string" where
  "show_nat n =
     (if n < 10 then [char_of (48 + n)] else show_nat (n div 10) @ [char_of (48 + n mod 10)])"
  by pat_completeness auto
termination
  by (relation "measure (\<lambda>n. n)") auto

text \<open>\<open>a ?? b\<close>.\<close>

fun nullish :: "json option \<Rightarrow> json option \<Rightarrow> json option" where
  "nullish None b = b"
| "nullish (Some JNull) b = b"
| "nullish (Some v) b = Some v"

text \<open>\<open>s.includes(sub)\<close>.\<close>

fun str_includes :: "string \<Rightarrow> string \<Rightarrow> bool" where
  "str_includes [] sub = (sub = [])"
| "str_includes (c # cs) sub = (prefix sub (c # cs) \<or> str_includes cs sub)"

text \<open>\<open>s.trim()\<close>: white space and line terminators are removed at both ends. The
  list holds the UTF-8 bytes of U+0009 to U+000D, U+0020, U+00A0, U+1680, U+2000 to
  U+200A, U+2028, U+2029, U+202F, U+205F, U+3000 and U+FEFF.\<close>

definition white_space :: "string list" where
  "white_space =
     [[CHR 0x09], [CHR 0x0A], [CHR 0x0B], [CHR 0x0C], [CHR 0x0D], [CHR 0x20],
      [CHR 0xC2, CHR 0xA0], [CHR 0xE1, CHR 0x9A, CHR 0x80],
      [CHR 0xE2, CHR 0x80, CHR 0x80], [CHR 0xE2, CHR 0x80, CHR 0x81],
      [CHR 0xE2, CHR 0x80, CHR 0x82], [CHR 0xE2, CHR 0x80, CHR 0x83],
      [CHR 0xE2, CHR 0x80, CHR 0x84], [CHR 0xE2, CHR 0x80, CHR 0x85],
      [CHR 0xE2, CHR 0x80, CHR 0x86], [CHR 0xE2, CHR 0x80, CHR 0x87],
      [CHR 0xE2, CHR 0x80, CHR 0x88], [CHR 0xE2, CHR 0x80, CHR 0x89],
      [CHR 0xE2, CHR 0x80, CHR 0x8A], [CHR 0xE2, CHR 0x80, CHR 0xA8],
      [CHR 0xE2, CHR 0x80, CHR 0xA9], [CHR 0xE2, CHR 0x80, CHR 0xAF],
      [CHR 0xE2, CHR 0x81, CHR 0x9F], [CHR 0xE3, CHR 0x80, CHR 0x80],
      [CHR 0xEF, CHR 0xBB, CHR 0xBF]]"

fun trim_start :: "string \<Rightarrow> string" where
  "trim_start (a # b # c # s) =
     (if [a] \<in> set white_space then trim_start (b # c # s)
      else if [a, b] \<in> set white_space then trim_start (c # s)
      else if [a, b, c] \<in> set white_space then trim_start s
      else a # b # c # s)"
| "trim_start [a, b] =
     (if [a] \<in> set white_space then trim_start [b]
      else if [a, b] \<in> set white_space then []
      else [a, b])"
| "trim_start [a] = (if [a] \<in> set white_space then [] else [a])"
| "trim_start [] = []"

fun trim_end :: "string \<Rightarrow> string" where
  "trim_end [] = []"
| "trim_end (c # cs) = (if trim_start (c # cs) = [] then [] else c # trim_end cs)"

definition js_trim :: "string \<Rightarrow> string" where
  "js_trim s = trim_end (trim_start s)"

section \<open>The process and the world around it\<close>

text \<open>What the process does that can be seen from outside, in order: the prompt of
  \<open>rl.question\<close>, \<open>console.log\<close> and \<open>console.error\<close>, the construction of a client
  by \<open>createClient({apiKey})\<close>, and the calls of the SDK to the remote service (the API
  key of the client first).\<close>

datatype request =
    UserGet
  | ChatsFind json
  | ChatsDelete json
  | ChatsInit json
  | ChatsSendMessage "json option" json

datatype event =
    Question string
  | ConsoleLog json
  | ConsoleError json
  | CreateClient json
  | Request json request

datatype path = CONFIG_FILE | PROJECT_FILE

text \<open>The world of one run: the environment variable, the two files the program knows
  (\<open>~/.config/v0/config.json\<close> and \<open>.v0\<close>) and whether \<open>~/.config/v0\<close> exists, the line
  typed at the terminal, the directory tree as \<open>Glob.scan\<close> and \<open>Bun.file(p).text()\<close>
  see it (a read answers with the text or throws), the locale's rendering of a date, and
  the trace so far.\<close>

record world =
  env_V0_API_KEY :: "string option"
  config_dir_exists :: bool
  files :: "path \<Rightarrow> string option"
  terminal_line :: string
  glob_scan :: "string \<Rightarrow> string list"
  tree_text :: "string \<Rightarrow> json + string"
  toLocaleDateString :: "json option \<Rightarrow> string"
  trace :: "event list"

text \<open>The remote service behind the SDK: each operation answers a request made with an
  API key either with a thrown error (\<open>Inl\<close>) or with its result. \<open>chats.find\<close>
  answers with the \<open>data\<close> array of its response, if it has one; \<open>chats.init\<close> and
  \<open>chats.sendMessage\<close> answer with the properties of a chat object or with a
  \<open>ReadableStream\<close> (\<open>None\<close>).\<close>

record service =
  user_get :: "json \<Rightarrow> json + json"
  chats_find :: "json \<Rightarrow> json \<Rightarrow> json + json list option"
  chats_delete :: "json \<Rightarrow> json \<Rightarrow> json + unit"
  chats_init :: "json \<Rightarrow> json \<Rightarrow> json + (string \<times> json) list option"
  chats_sendMessage :: "json \<Rightarrow> json option \<Rightarrow> json \<Rightarrow> json + (string \<times> json) list option"

text \<open>A step of the process returns a value, throws a value, or ends the process with an
  exit code (\<open>process.exit\<close>, which no \<open>catch\<close> sees).\<close>

datatype 'a outcome = Ok 'a | Throw json | Exit nat

type_synonym 'a action = "world \<Rightarrow> 'a outcome \<times> world"

definition return :: "'a \<Rightarrow> 'a action" where
  "return x w = (Ok x, w)"

definition throw :: "json \<Rightarrow> 'a action" where
  "throw e w = (Throw e, w)"

definition process_exit :: "nat \<Rightarrow> 'a action" where
  "process_exit n w = (Exit n, w)"

text \<open>\<open>const x = await m; f(x)\<close>.\<close>

definition await :: "'a action \<Rightarrow> ('a \<Rightarrow> 'b action) \<Rightarrow> 'b action" where
  "await m f w =
     (case m w of
        (Ok x, w') \<Rightarrow> f x w'
      | (Throw e, w') \<Rightarrow> (Throw e, w')
      | (Exit n, w') \<Rightarrow> (Exit n, w'))"

fun for_each :: "'a list \<Rightarrow> ('a \<Rightarrow> unit action) \<Rightarrow> unit action" where
  "for_each [] f = return ()"
| "for_each (x # xs) f = await (f x) (\<lambda>_. for_each xs f)"

definition emit :: "event \<Rightarrow> unit action" where
  "emit e w = (Ok (), w\<lparr>trace := trace w @ [e]\<rparr>)"

definition console_log :: "json \<Rightarrow> unit action" where
  "console_log v = emit (ConsoleLog v)"

definition console_error :: "json \<Rightarrow> unit action" where
  "console_error v = emit (ConsoleError v)"

text \<open>Error objects, by their \<open>name\<close> and \<open>message\<close>. The wording of the engine's own
  messages is the engine's.\<close>

definition new_Error :: "string \<Rightarrow> json" where
  "new_Error msg = JObj [(''name'', JStr ''Error''), (''message'', JStr msg)]"

definition SyntaxError :: json where
  "SyntaxError = JObj [(''name'', JStr ''SyntaxError''), (''message'', JStr ''JSON Parse error'')]"

definition TypeError :: json where
  "TypeError = JObj [(''name'', JStr ''TypeError''), (''message'', JStr ''not an object'')]"

definition ENOENT :: json where
  "ENOENT = JObj [(''name'', JStr ''Error''), (''code'', JStr ''ENOENT''),
     (''message'', JStr ''No such file or directory'')]"

definition JSON_parse_text :: "string \<Rightarrow> json action" where
  "JSON_parse_text text = (case JSON_parse text of None \<Rightarrow> throw SyntaxError | Some v \<Rightarrow> return v)"

text \<open>\<open>value.k\<close>, \<open>value.k = v\<close> and \<open>delete value.k\<close> in a module (strict mode): only
  \<open>null\<close> has no properties to read or delete, only an object or an array takes a new
  one. An array keeps a named property apart from its elements, where
  \<open>JSON.stringify\<close>, the one reader after an assignment in this program, does not look.\<close>

definition read_prop :: "json \<Rightarrow> string \<Rightarrow> json option action" where
  "read_prop v k = (case get_prop v k of None \<Rightarrow> throw TypeError | Some x \<Rightarrow> return x)"

fun assign_prop :: "json \<Rightarrow> string \<Rightarrow> json \<Rightarrow> json action" where
  "assign_prop (JObj ps) k v = return (JObj (set_prop ps k v))"
| "assign_prop (JArr vs) k v = return (JArr vs)"
| "assign_prop x k v = throw TypeError"


subsection \<open>Files, environment, terminal\<close>

definition Bun_file_exists :: "path \<Rightarrow> bool action" where
  "Bun_file_exists p w = (Ok (files w p \<noteq> None), w)"

definition Bun_file_text :: "path \<Rightarrow> string action" where
  "Bun_file_text p w = (case files w p of None \<Rightarrow> (Throw ENOENT, w) | Some text \<Rightarrow> (Ok text, w))"

definition Bun_write :: "path \<Rightarrow> string \<Rightarrow> unit action" where
  "Bun_write p text w = (Ok (), w\<lparr>files := (files w)(p := Some text)\<rparr>)"

definition shell_rm :: "path \<Rightarrow> unit action" where
  "shell_rm p w = (Ok (), w\<lparr>files := (files w)(p := None)\<rparr>)"

definition existsSync_CONFIG_DIR :: "bool action" where
  "existsSync_CONFIG_DIR w = (Ok (config_dir_exists w), w)"

definition mkdirSync_CONFIG_DIR :: "unit action" where
  "mkdirSync_CONFIG_DIR w = (Ok (), w\<lparr>config_dir_exists := True\<rparr>)"

definition process_env_V0_API_KEY :: "json option action" where
  "process_env_V0_API_KEY w = (Ok (map_option JStr (env_V0_API_KEY w)), w)"

definition rl_question :: "string \<Rightarrow> string action" where
  "rl_question prompt w = (Ok (terminal_line w), w\<lparr>trace := trace w @ [Question prompt]\<rparr>)"

definition Glob_scan :: "string \<Rightarrow> string list action" where
  "Glob_scan pattern w = (Ok (glob_scan w pattern), w)"

definition fileHandle_text :: "string \<Rightarrow> string action" where
  "fileHandle_text file w = (case tree_text w file of Inl e \<Rightarrow> (Throw e, w) | Inr text \<Rightarrow> (Ok text, w))"

subsection \<open>The SDK\<close>

definition createClient :: "json \<Rightarrow> json action" where
  "createClient apiKey = await (emit (CreateClient apiKey)) (\<lambda>_. return apiKey)"

definition call :: "json \<Rightarrow> request \<Rightarrow> json + 'a \<Rightarrow> 'a action" where
  "call client req answer =
     await (emit (Request client req))
       (\<lambda>_. case answer of Inl e \<Rightarrow> throw e | Inr x \<Rightarrow> return x)"

definition client_user_get :: "service \<Rightarrow> json \<Rightarrow> json action" where
  "client_user_get svc client = call client UserGet (user_get svc client)"

definition client_chats_find :: "service \<Rightarrow> json \<Rightarrow> json \<Rightarrow> json list option action" where
  "client_chats_find svc client queryOpts =
     call client (ChatsFind queryOpts) (chats_find svc client queryOpts)"

definition client_chats_delete :: "service \<Rightarrow> json \<Rightarrow> json \<Rightarrow> unit action" where
  "client_chats_delete svc client arg =
     call client (ChatsDelete arg) (chats_delete svc client arg)"

definition client_chats_init ::
  "service \<Rightarrow> json \<Rightarrow> json \<Rightarrow> (string \<times> json) list option action" where
  "client_chats_init svc client initOpts =
     call client (ChatsInit initOpts) (chats_init svc client initOpts)"

definition client_chats_sendMessage ::
  "service \<Rightarrow> json \<Rightarrow> json option \<Rightarrow> json \<Rightarrow> (string \<times> json) list option action" where
  "client_chats_sendMessage svc client chatId messageOpts =
     call client (ChatsSendMessage chatId messageOpts)
       (chats_sendMessage svc client chatId messageOpts)"

section \<open>config.ts\<close>

text \<open>The file of the credential and link store and of the client factory (among the
  sources it is the third unnamed part). \<open>CONFIG_DIR\<close> is \<open>~/.config/v0\<close>,
  \<open>CONFIG_FILE\<close> is \<open>config.json\<close> in it, \<open>PROJECT_FILE\<close> is \<open>.v0\<close> in the working
  directory.\<close>

definition readConfig :: "json action" where
  "readConfig =
     await (Bun_file_exists CONFIG_FILE) (\<lambda>exists.
       if \<not> exists then return (JObj [])
       else await (Bun_file_text CONFIG_FILE) (\<lambda>text. JSON_parse_text text))"

definition writeConfig :: "json \<Rightarrow> unit action" where
  "writeConfig config =
     await existsSync_CONFIG_DIR (\<lambda>exists.
     await (if \<not> exists then mkdirSync_CONFIG_DIR else return ()) (\<lambda>_.
       Bun_write CONFIG_FILE (JSON_stringify config)))"

definition readProjectLink :: "json action" where
  "readProjectLink =
     await (Bun_file_exists PROJECT_FILE) (\<lambda>exists.
       if \<not> exists then return JNull
       else await (Bun_file_text PROJECT_FILE) (\<lambda>text. JSON_parse_text text))"

definition writeProjectLink :: "string \<Rightarrow> unit action" where
  "writeProjectLink projectId =
     Bun_write PROJECT_FILE (JSON_stringify (JObj [(''projectId'', JStr projectId)]))"

definition removeProjectLink :: "unit action" where
  "removeProjectLink =
     await (Bun_file_exists PROJECT_FILE) (\<lambda>exists.
       if exists then shell_rm PROJECT_FILE else return ())"

definition no_api_key :: json where
  "no_api_key = new_Error (''No API key found. Run '' @ [CHR 0x27] @ ''v0 login'' @ [CHR 0x27]
     @ '' or set V0_API_KEY.'')"

definition resolveApiKeyWithConfig :: "json action" where
  "resolveApiKeyWithConfig =
     await process_env_V0_API_KEY (\<lambda>envKey.
       case (if truthy envKey then envKey else None) of
         Some key \<Rightarrow> return key
       | None \<Rightarrow>
           await readConfig (\<lambda>config.
           await (read_prop config ''apiKey'') (\<lambda>apiKey.
             case (if truthy apiKey then apiKey else None) of
               Some key \<Rightarrow> return key
             | None \<Rightarrow> throw no_api_key)))"

definition getClient :: "json action" where
  "getClient = await resolveApiKeyWithConfig (\<lambda>apiKey. createClient apiKey)"

section \<open>files.ts\<close>

record FileContent =
  name :: string
  content :: string

text \<open>The test that skips the \<open>node_modules\<close> and \<open>.git\<close> directories.\<close>

definition skipped :: "string \<Rightarrow> bool" where
  "skipped file = (str_includes file ''node_modules/'' \<or> str_includes file ''.git/'')"

text \<open>The inner loop of \<open>collectFiles\<close> over the files one pattern matches, and the outer
  loop over the patterns; the state is \<open>files\<close> and \<open>seen\<close>.\<close>

fun scan_loop ::
  "string list \<Rightarrow> FileContent list \<times> string set \<Rightarrow> (FileContent list \<times> string set) action" where
  "scan_loop [] st = return st"
| "scan_loop (file # rest) st =
     (if skipped file then scan_loop rest st
      else if file \<in> snd st then scan_loop rest st
      else
        await (fileHandle_text file) (\<lambda>content.
          scan_loop rest (fst st @ [\<lparr>name = file, content = content\<rparr>], insert file (snd st))))"

fun pattern_loop ::
  "string list \<Rightarrow> FileContent list \<times> string set \<Rightarrow> (FileContent list \<times> string set) action" where
  "pattern_loop [] st = return st"
| "pattern_loop (pattern # rest) st =
     await (Glob_scan pattern) (\<lambda>matches.
     await (scan_loop matches st) (\<lambda>st'. pattern_loop rest st'))"

definition collectFiles :: "string list \<Rightarrow> FileContent list action" where
  "collectFiles patterns = await (pattern_loop patterns ([], {})) (\<lambda>st. return (fst st))"

section \<open>index.ts\<close>

text \<open>The wrapper of every command handler, and the handlers of \<open>login\<close>, \<open>logout\<close>,
  \<open>chat list\<close>, \<open>chat delete\<close> and \<open>chat init\<close>. A handler takes the arguments
  that Commander passes to it. \<open>error_type error\<close> is \<open>error?.error?.type\<close>.\<close>

definition error_type :: "json \<Rightarrow> json option" where
  "error_type error = opt_chain (opt_chain (Some error) ''error'') ''type''"

definition withErrorHandling :: "('args \<Rightarrow> unit action) \<Rightarrow> 'args \<Rightarrow> unit action" where
  "withErrorHandling fn args w =
     (case fn args w of
        (Throw error, w') \<Rightarrow>
          await
            (if error_type error = Some (JStr ''unauthorized_error'') then
               console_error (JStr (''Not authenticated. Run '' @ [CHR 0x27] @ ''v0 login''
                 @ [CHR 0x27] @ '' or set V0_API_KEY.''))
             else if error_type error = Some (JStr ''not_found_error'') then
               console_error (JStr (''Not found: ''
                 @ js_toString (opt_chain (opt_chain (Some error) ''error'') ''message'')))
             else if error_type error = Some (JStr ''too_many_requests_error'') then
               console_error (JStr ''Rate limited. Try again shortly.'')
             else if error_type error = Some (JStr ''payload_too_large_error'') then
               console_error (JStr ''Payload too large. Try reducing the number or size of files.'')
             else
               console_error
                 (case nullish (nullish (opt_chain (opt_chain (Some error) ''error'') ''message'')
                                  (opt_chain (Some error) ''message''))
                         (Some (JStr ''Unknown error'')) of
                    Some v \<Rightarrow> v
                  | None \<Rightarrow> JStr ''Unknown error''))
            (\<lambda>_. process_exit 1) w'
      | r \<Rightarrow> r)"

definition login :: "service \<Rightarrow> unit \<Rightarrow> unit action" where
  "login svc _ =
     await (rl_question ''Enter your V0 API key: '') (\<lambda>answer.
     let apiKey = js_trim answer in
     await (if apiKey = [] then
              await (console_error (JStr ''API key cannot be empty'')) (\<lambda>_. process_exit 1)
            else return ()) (\<lambda>_.
     await (createClient (JStr apiKey)) (\<lambda>client.
     await (client_user_get svc client) (\<lambda>_.
     await readConfig (\<lambda>config.
     await (assign_prop config ''apiKey'' (JStr apiKey)) (\<lambda>config.
     await (writeConfig config) (\<lambda>_.
       console_log (JStr ''Successfully authenticated!''))))))))"


text \<open>The options of \<open>chat list\<close>: \<open>--limit\<close> (what \<open>parseInt\<close> made of it, if it is a
  number), \<open>--favorites\<close> and \<open>--json\<close>.\<close>

record list_opts =
  limit :: "json option"
  favorites :: bool
  list_json :: bool

text \<open>One turn of the loop over the chats. The two marks are the bytes of the string
  literals in the source file.\<close>

definition chat_line :: "json \<Rightarrow> unit action" where
  "chat_line chat =
     await (read_prop chat ''favorite'') (\<lambda>chat_favorite.
     let favorite =
           (if truthy chat_favorite
            then [CHR 0x20, CHR 0xE2, CHR 0x80, CHR 0x9A, CHR 0xE2, CHR 0x89, CHR 0xA0,
                  CHR 0xC3, CHR 0xAA]
            else []) in
     await (read_prop chat ''privacy'') (\<lambda>chat_privacy.
     let privacy =
           (if chat_privacy = Some (JStr ''private'')
            then [CHR 0x20, CHR 0xEF, CHR 0xA3, CHR 0xBF, CHR 0xC3, CHR 0xBC, CHR 0xC3,
                  CHR 0xAE, CHR 0xC3, CHR 0xAD]
            else []) in
     await (read_prop chat ''id'') (\<lambda>chat_id.
     await (read_prop chat ''name'') (\<lambda>chat_name.
     await (read_prop chat ''createdAt'') (\<lambda>createdAt. (\<lambda>w.
       console_log (JStr (js_toString chat_id @ '' - '' @ js_toString chat_name @ favorite
         @ privacy @ '' ('' @ toLocaleDateString w createdAt @ '')'')) w))))))"

definition chat_list :: "service \<Rightarrow> list_opts \<Rightarrow> unit action" where
  "chat_list svc opts =
     await getClient (\<lambda>client.
     let queryOpts = [];
         queryOpts = (case (if truthy (limit opts) then limit opts else None) of
                        Some n \<Rightarrow> set_prop queryOpts ''limit'' n
                      | None \<Rightarrow> queryOpts);
         queryOpts = (if favorites opts then set_prop queryOpts ''favorite'' (JBool True)
                      else queryOpts) in
     await (client_chats_find svc client (JObj queryOpts)) (\<lambda>response_data.
     let chats = (case response_data of Some data \<Rightarrow> data | None \<Rightarrow> []) in
       if list_json opts then console_log (JStr (JSON_stringify (JArr chats)))
       else if length chats = 0 then console_log (JStr ''No chats found'')
       else for_each chats chat_line))"

definition chat_delete :: "service \<Rightarrow> string \<Rightarrow> unit action" where
  "chat_delete svc chatId =
     await getClient (\<lambda>client.
     await (client_chats_delete svc client (JObj [(''chatId'', JStr chatId)])) (\<lambda>_.
       console_log (JStr (''Chat '' @ chatId @ '' deleted''))))"

text \<open>The options of \<open>chat init\<close>: \<open>--message\<close>, \<open>project\<close> (false with
  \<open>--no-project\<close>) and \<open>--json\<close>.\<close>

record init_opts =
  message :: "string option"
  project :: bool
  init_json :: bool

definition chat_init :: "service \<Rightarrow> string list \<times> init_opts \<Rightarrow> unit action" where
  "chat_init svc args =
     (let patterns = fst args; opts = snd args in
     await (if length patterns = 0 then
              await (console_error (JStr ''No file patterns provided'')) (\<lambda>_. process_exit 1)
            else return ()) (\<lambda>_.
     await (collectFiles patterns) (\<lambda>files.
     await (if length files = 0 then
              await (console_error (JStr ''No files found matching patterns'')) (\<lambda>_. process_exit 1)
            else return ()) (\<lambda>_.
     await getClient (\<lambda>client.
     await (if project opts then
              await readProjectLink (\<lambda>link.
                if truthy (Some link) then read_prop link ''projectId'' else return None)
            else return None) (\<lambda>projectId.
     let initOpts =
           [(''files'',
             JArr (map (\<lambda>f. JObj [(''name'', JStr (name f)), (''content'', JStr (content f))])
                    files))];
         initOpts = (case (if truthy projectId then projectId else None) of
                       Some p \<Rightarrow> set_prop initOpts ''projectId'' p
                     | None \<Rightarrow> initOpts) in
     await (client_chats_init svc client (JObj initOpts)) (\<lambda>reply.
       case reply of
         None \<Rightarrow> throw (new_Error ''Unexpected stream response'')
       | Some result \<Rightarrow>
           await (case (if truthy (map_option JStr (message opts)) then message opts else None) of
                    Some m \<Rightarrow>
                      await (client_chats_sendMessage svc client (map_of result ''id'')
                               (JObj [(''message'', JStr m)])) (\<lambda>messageResult.
                        case messageResult of
                          None \<Rightarrow> throw (new_Error ''Unexpected stream response'')
                        | Some _ \<Rightarrow> return ())
                  | None \<Rightarrow> return ()) (\<lambda>_.
           let url = ''https://v0.dev/chat/'' @ js_toString (map_of result ''id'') in
             if init_json opts then
               console_log (JStr (JSON_stringify (JObj (set_prop result ''url'' (JStr url)))))
             else
               await (console_log (JStr (''Chat initialized: '' @ js_toString (map_of result ''id'')))) (\<lambda>_.
               await (console_log (JStr (''Files attached: '' @ show_nat (length files)))) (\<lambda>_.
                 console_log (JStr url)))))))))))"

section \<open>Worlds to run the program on\<close>

definition example_world :: world where
  "example_world =
     \<lparr>env_V0_API_KEY = None, config_dir_exists = False, files = (\<lambda>_. None),
      terminal_line = [], glob_scan = (\<lambda>_. []), tree_text = (\<lambda>_. Inl ENOENT),
      toLocaleDateString = (\<lambda>_. []), trace = []\<rparr>"

definition example_service :: service where
  "example_service =
     \<lparr>user_get = (\<lambda>_. Inr (JObj [(''id'', JStr ''u1'')])),
      chats_find = (\<lambda>_ _. Inr (Some [])),
      chats_delete = (\<lambda>_ _. Inr ()),
      chats_init = (\<lambda>_ _. Inr (Some [(''id'', JStr ''c1'')])),
      chats_sendMessage = (\<lambda>_ _ _. Inr (Some [(''id'', JStr ''c1'')]))\<rparr>"

definition failing_service :: service where
  "failing_service =
     example_service\<lparr>user_get :=
       (\<lambda>_. Inl (JObj [(''error'', JObj [(''type'', JStr ''unauthorized_error''),
                                           (''message'', JStr ''Invalid API key'')])]))\<rparr>"

text \<open>The config that \<open>readConfig\<close> finds in a world, if the file can be parsed.\<close>

definition stored_config :: "world \<Rightarrow> json option" where
  "stored_config w =
     (case files w CONFIG_FILE of None \<Rightarrow> Some (JObj []) | Some text \<Rightarrow> JSON_parse text)"

text \<open>The events of the network side: a client is constructed, a request is made.\<close>

fun is_network :: "event \<Rightarrow> bool" where
  "is_network (CreateClient k) = True"
| "is_network (Request k r) = True"
| "is_network e = False"

text \<open>The words of the specification about \<open>collectFiles\<close>: a list with each element
  kept where it occurs first, and the directory segments of a path (its parts before a
  \<open>/\<close>).\<close>

definition first_occurrences :: "'a list \<Rightarrow> 'a list" where
  "first_occurrences xs = rev (remdups (rev xs))"

fun split_path :: "string \<Rightarrow> string list" where
  "split_path [] = [[]]"
| "split_path (c # cs) =
     (if c = CHR ''/'' then [] # split_path cs
      else (case split_path cs of [] \<Rightarrow> [[c]] | s # ss \<Rightarrow> (c # s) # ss))"

definition has_dir_segment :: "string \<Rightarrow> string \<Rightarrow> bool" where
  "has_dir_segment file dir = (dir \<in> set (butlast (split_path file)))"

text \<open>A directory tree with TypeScript files, some of them under \<open>node_modules\<close> and
  \<open>.git\<close>.\<close>

definition ts_world :: world where
  "ts_world =
     example_world\<lparr>
       glob_scan := (\<lambda>pattern.
         if pattern = ''**/*.ts'' then [''a.ts'', ''node_modules/x.ts'', ''b.ts'', ''.git/c.ts'']
         else if pattern = ''*.ts'' then [''b.ts'', ''a.ts'', ''c.ts'']
         else []),
       tree_text := (\<lambda>file. Inr (''// '' @ file))\<rparr>"

text \<open>A world with a stored API key, and a service that knows no chat.\<close>

definition stored_key_world :: world where
  "stored_key_world =
     example_world\<lparr>config_dir_exists := True,
       files := (\<lambda>p. if p = CONFIG_FILE then Some ''{\"apiKey\": \"stored\"}'' else None)\<rparr>"

definition not_found_service :: service where
  "not_found_service =
     example_service\<lparr>chats_delete :=
       (\<lambda>_ _. Inl (JObj [(''error'', JObj [(''type'', JStr ''not_found_error''),
                                             (''message'', JStr ''Chat not found'')])]))\<rparr>"

text \<open>The query that \<open>chat list\<close> sends for its options.\<close>

definition list_query :: "list_opts \<Rightarrow> json" where
  "list_query opts =
     (let queryOpts = [];
         queryOpts = (case (if truthy (limit opts) then limit opts else None) of
                        Some n \<Rightarrow> set_prop queryOpts ''limit'' n
                      | None \<Rightarrow> queryOpts);
         queryOpts = (if favorites opts then set_prop queryOpts ''favorite'' (JBool True)
                      else queryOpts) in JObj queryOpts)"

text \<open>The values that \<open>JSON.stringify\<close> writes letter by letter as \<open>stringify\<close> does:
  no number, and ASCII characters only in strings and property names.\<close>

definition is_ascii :: "string \<Rightarrow> bool" where
  "is_ascii s = list_all (\<lambda>c. (of_char c :: nat) < 128) s"

fun plain :: "json \<Rightarrow> bool" where
  "plain JNull = True"
| "plain (JBool b) = True"
| "plain (JNum lit) = False"
| "plain (JStr s) = is_ascii s"
| "plain (JArr vs) = list_all plain vs"
| "plain (JObj ps) = list_all (\<lambda>p. is_ascii (fst p) \<and> plain (snd p)) ps"

section \<open>A string survives \<open>JSON.stringify\<close> and \<open>JSON.parse\<close>\<close>

lemma hex_val_hex_digit: "d < 16 \<Longrightarrow> hex_val (hex_digit d) = Some d"
  by (auto simp: hex_val_def hex_digit_def Let_def)

lemma hex_val_zero: "hex_val (CHR ''0'') = Some 0"
  by (simp add: hex_val_def)

lemma hex4_control:
  "n < 32 \<Longrightarrow> hex4 (CHR ''0'') (CHR ''0'') (hex_digit (n div 16)) (hex_digit (n mod 16)) = Some n"
  by (simp add: hex4_def hex_val_zero hex_val_hex_digit)

lemma prepend_Some: "prepend pre (Some (s, r)) = Some (pre @ s, r)"
  by (simp add: prepend_def)

text \<open>Each escape of \<open>quote_char\<close> is read back as the character it stands for.\<close>

lemma parse_chars_quote_char:
  "parse_chars (quote_char c @ rest) = prepend [c] (parse_chars rest)"
proof (cases "(of_char c :: nat) < 32")
  case True
  then have u: "utf8 (of_char c) = [c]" by (simp add: utf8_def)
  from True have ne: "c \<noteq> CHR 0x22" "c \<noteq> CHR 0x5C" by auto
  show ?thesis
    using True ne u
    by (auto simp: quote_char_def unescape_def hex4_control)
next
  case False
  then show ?thesis
    by (auto simp: quote_char_def unescape_def)
qed

lemma parse_chars_quoted:
  "parse_chars (concat (map quote_char s) @ CHR 0x22 # rest) = Some (s, rest)"
proof (induction s)
  case Nil
  show ?case by simp
next
  case (Cons c s)
  then show ?case
    by (simp add: parse_chars_quote_char prepend_Some del: parse_chars.simps(2))
qed

lemma quote_append:
  "quote s @ rest = CHR 0x22 # (concat (map quote_char s) @ CHR 0x22 # rest)"
  by (simp add: quote_def)

lemma skip_ws_simps:
  "skip_ws [] = []"
  "skip_ws (c # cs) = (if is_ws c then skip_ws cs else c # cs)"
  by (simp_all add: skip_ws_def)

lemma parse_single_member:
  "parse_value (Suc (Suc (Suc n))) (stringify [] (JObj [(k, JStr v)]) @ rest)
     = Some (JObj [(k, JStr v)], rest)"
  by (simp add: newline_def quote_append skip_ws_simps is_ws_def parse_chars_quoted set_prop_def
        del: parse_chars.simps)

lemma JSON_roundtrip_single_member:
  "JSON_parse (JSON_stringify (JObj [(k, JStr v)])) = Some (JObj [(k, JStr v)])"
proof -
  obtain n where n: "2 * length (JSON_stringify (JObj [(k, JStr v)])) + 2 = Suc (Suc (Suc n))"
    by (simp add: JSON_stringify_def)
  show ?thesis
    unfolding JSON_parse_def n
    using parse_single_member [of n k v "[]"]
    by (simp add: JSON_stringify_def skip_ws_simps)
qed


section \<open>The depth bound of \<open>JSON_parse\<close> is never reached\<close>

text \<open>Every parser leaves less text than it was given, so the depth of the calls is
  bounded by the length of the text: with at least the bound that \<open>JSON_parse\<close> gives,
  the result of \<open>parse_value\<close> does not depend on the bound.\<close>

lemma prepend_rest: "prepend pre x = Some (s, r) \<Longrightarrow> \<exists>s'. x = Some (s', r)"
  by (cases x) (auto simp: prepend_def)

lemma parse_chars_rest: "parse_chars cs = Some (x, r) \<Longrightarrow> length r < length cs"
proof (induction "length cs" arbitrary: cs x r rule: less_induct)
  case less
  show ?case
  proof (cases cs)
    case Nil
    with less.prems show ?thesis by simp
  next
    case (Cons c cs')
    have IH: "\<And>t y q. prepend y (parse_chars t) = Some (x, q)
                \<Longrightarrow> length cs' < length t \<or> length q < length t"
    proof -
      fix t y q assume p: "prepend y (parse_chars t) = Some (x, q)"
      from prepend_rest [OF p] obtain s' where s': "parse_chars t = Some (s', q)" by blast
      show "length cs' < length t \<or> length q < length t"
      proof (cases "length cs' < length t")
        case True then show ?thesis by simp
      next
        case False
        then have "length t < length cs" by (simp add: Cons)
        from less.hyps [OF this s'] show ?thesis by simp
      qed
    qed
    from less.prems [unfolded Cons parse_chars.simps]
    show ?thesis
      unfolding Cons
      apply (simp only: split: if_split_asm list.split_asm option.split_asm)
      apply (auto dest!: IH simp del: parse_chars.simps)
      done
  qed
qed

lemma skip_ws_length: "length (skip_ws s) \<le> length s"
  by (simp add: skip_ws_def length_dropWhile_le)

lemma parse_digits_rest: "parse_digits s = Some (d, r) \<Longrightarrow> length r < length s"
proof -
  assume a: "parse_digits s = Some (d, r)"
  have "length (takeWhile is_digit s) + length (dropWhile is_digit s) = length s"
    by (metis length_append takeWhile_dropWhile_id)
  moreover from a have "takeWhile is_digit s \<noteq> []" "r = dropWhile is_digit s"
    by (auto simp: parse_digits_def split: if_splits)
  then have "0 < length (takeWhile is_digit s)" "length r = length (dropWhile is_digit s)"
    by simp_all
  ultimately show ?thesis by linarith
qed

lemma parse_int_rest: "parse_int s = Some (d, r) \<Longrightarrow> length r < length s"
  by (auto simp: parse_int_def split: list.splits if_splits dest: parse_digits_rest)

lemma parse_frac_rest: "parse_frac s = Some (d, r) \<Longrightarrow> length r \<le> length s"
  by (auto simp: parse_frac_def split: list.splits if_splits dest!: prepend_rest dest: parse_digits_rest)

lemma parse_exp_rest: "parse_exp s = Some (d, r) \<Longrightarrow> length r \<le> length s"
  by (auto simp: parse_exp_def split: list.splits if_splits dest!: prepend_rest dest: parse_digits_rest)

lemma parse_number_rest: "parse_number s = Some (d, r) \<Longrightarrow> length r < length s"
  by (auto simp: parse_number_def split: list.splits if_splits option.splits
      dest!: prepend_rest parse_int_rest parse_frac_rest parse_exp_rest)

lemma skip_ws_Cons: "skip_ws s = c # cs \<Longrightarrow> length cs < length s"
  using skip_ws_length [of s] by simp


lemma map_apfst_rest: "map_option (apfst F) x = Some (v, r) \<Longrightarrow> \<exists>y. x = Some (y, r)"
  by (cases x) auto

lemma parse_value_Suc_Cons:
  assumes p: "parse_value (Suc f) s = Some (v, r)" and Cons: "skip_ws s = c # cs"
  shows "(if c = CHR ''{'' then
            (case skip_ws cs of
               [] \<Rightarrow> None
             | d # ds \<Rightarrow>
                 if d = CHR ''}'' then Some (JObj [], ds)
                 else map_option (apfst JObj) (parse_members f [] cs))
          else if c = CHR ''['' then
            (case skip_ws cs of
               [] \<Rightarrow> None
             | d # ds \<Rightarrow>
                 if d = CHR '']'' then Some (JArr [], ds)
                 else map_option (apfst JArr) (parse_elements f [] cs))
          else if c = CHR 0x22 then map_option (apfst JStr) (parse_chars cs)
          else if c = CHR ''-'' \<or> is_digit c then map_option (apfst JNum) (parse_number (c # cs))
          else if prefix ''true'' (c # cs) then Some (JBool True, drop 4 (c # cs))
          else if prefix ''false'' (c # cs) then Some (JBool False, drop 5 (c # cs))
          else if prefix ''null'' (c # cs) then Some (JNull, drop 4 (c # cs))
          else None) = Some (v, r)"
  using p unfolding parse_value.simps Cons list.case .

lemma parse_literal_rest:
  assumes q: "(if prefix ''true'' (c # cs) then Some (JBool True, drop 4 (c # cs))
          else if prefix ''false'' (c # cs) then Some (JBool False, drop 5 (c # cs))
          else if prefix ''null'' (c # cs) then Some (JNull, drop 4 (c # cs))
          else None) = Some (v, r)"
  shows "length r \<le> length cs"
proof -
  from q have "r = drop 4 (c # cs) \<or> r = drop 5 (c # cs)"
    by (simp only: split: if_split_asm) auto
  then show ?thesis by auto
qed


lemma fuel_enough_aux:
  "(\<forall>s. 2 * length s + 1 \<le> f \<longrightarrow>
        (\<forall>g. f \<le> g \<longrightarrow> parse_value g s = parse_value f s)
      \<and> (\<forall>v r. parse_value f s = Some (v, r) \<longrightarrow> length r < length s))
 \<and> (\<forall>s. 2 * length s + 2 \<le> f \<longrightarrow>
        (\<forall>g acc. f \<le> g \<longrightarrow> parse_elements g acc s = parse_elements f acc s)
      \<and> (\<forall>acc v r. parse_elements f acc s = Some (v, r) \<longrightarrow> length r < length s))
 \<and> (\<forall>s. 2 * length s + 2 \<le> f \<longrightarrow>
        (\<forall>g acc. f \<le> g \<longrightarrow> parse_members g acc s = parse_members f acc s)
      \<and> (\<forall>acc v r. parse_members f acc s = Some (v, r) \<longrightarrow> length r < length s))"
proof (induction f)
  case 0
  show ?case by simp
next
  case (Suc f)
  from Suc.IH have
    V_eq: "\<And>s g. 2 * length s + 1 \<le> f \<Longrightarrow> f \<le> g \<Longrightarrow> parse_value g s = parse_value f s" and
    V_rest: "\<And>s v r. 2 * length s + 1 \<le> f \<Longrightarrow> parse_value f s = Some (v, r) \<Longrightarrow> length r < length s" and
    E_eq: "\<And>s g acc. 2 * length s + 2 \<le> f \<Longrightarrow> f \<le> g
            \<Longrightarrow> parse_elements g acc s = parse_elements f acc s" and
    E_rest: "\<And>s acc v r. 2 * length s + 2 \<le> f \<Longrightarrow> parse_elements f acc s = Some (v, r)
            \<Longrightarrow> length r < length s" and
    M_eq: "\<And>s g acc. 2 * length s + 2 \<le> f \<Longrightarrow> f \<le> g
            \<Longrightarrow> parse_members g acc s = parse_members f acc s" and
    M_rest: "\<And>s acc v r. 2 * length s + 2 \<le> f \<Longrightarrow> parse_members f acc s = Some (v, r)
            \<Longrightarrow> length r < length s"
    by blast+
  have value_eq: "parse_value g s = parse_value (Suc f) s"
    if len: "2 * length s + 1 \<le> Suc f" and g: "Suc f \<le> g" for s g
  proof -
    from g obtain g' where g': "g = Suc g'" "f \<le> g'" by (cases g) auto
    show ?thesis
    proof (cases "skip_ws s")
      case Nil
      then show ?thesis by (simp add: g')
    next
      case (Cons c cs)
      from skip_ws_Cons [OF Cons] len have cs: "2 * length cs + 2 \<le> f" by simp
      show ?thesis
        by (cases "skip_ws cs") (simp_all add: g' Cons M_eq [OF cs g'(2)] E_eq [OF cs g'(2)])
    qed
  qed
  have value_rest: "length r < length s"
    if len: "2 * length s + 1 \<le> Suc f" and p: "parse_value (Suc f) s = Some (v, r)" for s v r
  proof (cases "skip_ws s")
    case Nil
    with p show ?thesis by simp
  next
    case (Cons c cs)
    from skip_ws_Cons [OF Cons] have lt: "length cs < length s" .
    with len have cs: "2 * length cs + 2 \<le> f" by simp
    note q = parse_value_Suc_Cons [OF p Cons]
    consider (obj) "c = CHR ''{''" | (arr) "c = CHR ''[''" | (str) "c = CHR 0x22"
      | (num) "c \<noteq> CHR ''{''" "c \<noteq> CHR ''[''" "c \<noteq> CHR 0x22" "c = CHR ''-'' \<or> is_digit c"
      | (lit) "c \<noteq> CHR ''{''" "c \<noteq> CHR ''[''" "c \<noteq> CHR 0x22" "\<not> (c = CHR ''-'' \<or> is_digit c)"
      by blast
    then have "length r \<le> length cs"
    proof cases
      case obj
      show ?thesis
      proof (cases "skip_ws cs")
        case Nil
        with q obj show ?thesis by simp
      next
        case inner: (Cons d ds)
        show ?thesis
        proof (cases "d = CHR ''}''")
          case True
          with q obj inner skip_ws_Cons [OF inner] show ?thesis by simp
        next
          case False
          with q obj inner have "map_option (apfst JObj) (parse_members f [] cs) = Some (v, r)"
            by simp
          from map_apfst_rest [OF this] obtain y where "parse_members f [] cs = Some (y, r)" ..
          from M_rest [OF cs this] show ?thesis by simp
        qed
      qed
    next
      case arr
      show ?thesis
      proof (cases "skip_ws cs")
        case Nil
        with q arr show ?thesis by simp
      next
        case inner: (Cons d ds)
        show ?thesis
        proof (cases "d = CHR '']''")
          case True
          with q arr inner skip_ws_Cons [OF inner] show ?thesis by simp
        next
          case False
          with q arr inner have "map_option (apfst JArr) (parse_elements f [] cs) = Some (v, r)"
            by simp
          from map_apfst_rest [OF this] obtain y where "parse_elements f [] cs = Some (y, r)" ..
          from E_rest [OF cs this] show ?thesis by simp
        qed
      qed
    next
      case str
      with q have "map_option (apfst JStr) (parse_chars cs) = Some (v, r)" by simp
      from map_apfst_rest [OF this] obtain y where "parse_chars cs = Some (y, r)" ..
      from parse_chars_rest [OF this] show ?thesis by simp
    next
      case num
      with q have "map_option (apfst JNum) (parse_number (c # cs)) = Some (v, r)" by simp
      from map_apfst_rest [OF this] obtain y where "parse_number (c # cs) = Some (y, r)" ..
      from parse_number_rest [OF this] show ?thesis by simp
    next
      case lit
      with q have "(if prefix ''true'' (c # cs) then Some (JBool True, drop 4 (c # cs))
          else if prefix ''false'' (c # cs) then Some (JBool False, drop 5 (c # cs))
          else if prefix ''null'' (c # cs) then Some (JNull, drop 4 (c # cs))
          else None) = Some (v, r)"
        by (simp only: if_False)
      then show ?thesis by (rule parse_literal_rest)
    qed
    with lt show ?thesis by simp
  qed
  have elements_eq: "parse_elements g acc s = parse_elements (Suc f) acc s"
    if len: "2 * length s + 2 \<le> Suc f" and g: "Suc f \<le> g" for s g acc
  proof -
    from g obtain g' where g': "g = Suc g'" "f \<le> g'" by (cases g) auto
    from len have s: "2 * length s + 1 \<le> f" by simp
    show ?thesis
    proof (cases "parse_value f s")
      case None
      then show ?thesis by (simp add: g' V_eq [OF s g'(2)])
    next
      case (Some p)
      obtain v r where p: "p = (v, r)" by (cases p)
      from V_rest [OF s Some [unfolded p]] have r: "length r < length s" .
      show ?thesis
      proof (cases "skip_ws r")
        case Nil
        then show ?thesis by (simp add: g' V_eq [OF s g'(2)] Some p)
      next
        case (Cons c cs)
        from skip_ws_Cons [OF Cons] r len have cs: "2 * length cs + 2 \<le> f" by simp
        show ?thesis
          by (simp add: g' V_eq [OF s g'(2)] Some p Cons E_eq [OF cs g'(2)])
      qed
    qed
  qed
  have elements_rest: "length r < length s"
    if len: "2 * length s + 2 \<le> Suc f" and p: "parse_elements (Suc f) acc s = Some (v, r)"
    for s acc v r
  proof -
    from len have s: "2 * length s + 1 \<le> f" by simp
    from p obtain x q where x: "parse_value f s = Some (x, q)"
      by (cases "parse_value f s") auto
    from V_rest [OF s x] have q: "length q < length s" .
    from p x obtain c cs where c: "skip_ws q = c # cs"
      by (cases "skip_ws q") auto
    from skip_ws_Cons [OF c] q have lt: "length cs < length s" by simp
    with q skip_ws_Cons [OF c] len have cs: "2 * length cs + 2 \<le> f" by simp
    from p lt show ?thesis
      by (auto simp: x c split: if_splits dest!: E_rest [OF cs])
  qed
  have members_eq: "parse_members g acc s = parse_members (Suc f) acc s"
    if len: "2 * length s + 2 \<le> Suc f" and g: "Suc f \<le> g" for s g acc
  proof -
    from g obtain g' where g': "g = Suc g'" "f \<le> g'" by (cases g) auto
    show ?thesis
    proof (cases "skip_ws s")
      case Nil
      then show ?thesis by (simp add: g')
    next
      case (Cons q cs)
      note lcs = skip_ws_Cons [OF Cons]
      show ?thesis
      proof (cases "parse_chars cs")
        case None
        then show ?thesis by (simp add: g' Cons)
      next
        case (Some p)
        obtain k r where p: "p = (k, r)" by (cases p)
        from parse_chars_rest [OF Some [unfolded p]] have r: "length r < length cs" .
        show ?thesis
        proof (cases "skip_ws r")
          case Nil
          then show ?thesis by (simp add: g' Cons Some p)
        next
          case colon: (Cons d ds)
          from skip_ws_Cons [OF colon] r lcs len have ds: "2 * length ds + 1 \<le> f" by simp
          show ?thesis
          proof (cases "parse_value f ds")
            case None
            then show ?thesis
              using colon by (simp add: g' Cons Some p V_eq [OF ds g'(2)])
          next
            case val: (Some pv)
            obtain v r2 where pv: "pv = (v, r2)" by (cases pv)
            from V_rest [OF ds val [unfolded pv]] have r2: "length r2 < length ds" .
            show ?thesis
            proof (cases "skip_ws r2")
              case Nil
              then show ?thesis
                using colon by (simp add: g' Cons Some p V_eq [OF ds g'(2)] val pv)
            next
              case sep: (Cons e es)
              from skip_ws_Cons [OF sep] r2 skip_ws_Cons [OF colon] r lcs len
              have es: "2 * length es + 2 \<le> f" by simp
              show ?thesis
                using colon sep
                by (simp add: g' Cons Some p V_eq [OF ds g'(2)] val pv M_eq [OF es g'(2)])
            qed
          qed
        qed
      qed
    qed
  qed
  have members_rest: "length r < length s"
    if len: "2 * length s + 2 \<le> Suc f" and p: "parse_members (Suc f) acc s = Some (v, r)"
    for s acc v r
  proof -
    from p obtain q cs where q: "skip_ws s = q # cs"
      by (cases "skip_ws s") auto
    note lcs = skip_ws_Cons [OF q]
    from p q obtain k r1 where k: "parse_chars cs = Some (k, r1)"
      by (cases "parse_chars cs") (auto split: if_splits)
    from parse_chars_rest [OF k] have r1: "length r1 < length cs" .
    from p q k obtain d ds where d: "skip_ws r1 = d # ds"
      by (cases "skip_ws r1") (auto split: if_splits)
    from skip_ws_Cons [OF d] r1 lcs len have ds: "2 * length ds + 1 \<le> f" by simp
    from p q k d obtain x r2 where x: "parse_value f ds = Some (x, r2)"
      by (cases "parse_value f ds") (auto split: if_splits)
    from V_rest [OF ds x] have r2: "length r2 < length ds" .
    from p q k d x obtain e es where e: "skip_ws r2 = e # es"
      by (cases "skip_ws r2") (auto split: if_splits)
    from skip_ws_Cons [OF e] r2 skip_ws_Cons [OF d] r1 lcs
    have lt: "length es < length s" by simp
    with skip_ws_Cons [OF e] r2 skip_ws_Cons [OF d] r1 lcs len
    have es: "2 * length es + 2 \<le> f" by simp
    from p lt show ?thesis
      by (auto simp: q k d x e split: if_splits dest!: M_rest [OF es])
  qed
  show ?case
    using value_eq value_rest elements_eq elements_rest members_eq members_rest
    by blast
qed


lemma parse_value_fuel:
  assumes "2 * length text + 2 \<le> fuel"
  shows "parse_value fuel text = parse_value (2 * length text + 2) text"
proof -
  have "2 * length text + 1 \<le> 2 * length text + 2" by simp
  with fuel_enough_aux [of "2 * length text + 2"] assms show ?thesis by blast
qed

text \<open>The parser on some texts.\<close>

lemma JSON_parse_examples:
  "JSON_parse ''{\"apiKey\": \"v0_key\", \"defaults\": {\"model\": null, \"thinking\": false}}''
     = Some (JObj [(''apiKey'', JStr ''v0_key''),
                   (''defaults'', JObj [(''model'', JNull), (''thinking'', JBool False)])])"
  "JSON_parse '' [1, -2.5e+3, \"a b\", [], {}] ''
     = Some (JArr [JNum ''1'', JNum ''-2.5e+3'', JStr ''a b'', JArr [], JObj []])"
  "JSON_parse ''{\"b\": 1, \"2\": 2, \"1\": 3, \"b\": 4}''
     = Some (JObj [(''1'', JNum ''3''), (''2'', JNum ''2''), (''b'', JNum ''4'')])"
  "JSON_parse (CHR 0x22 # CHR 0x5C # ''u00e9'' @ CHR 0x5C # ''n'' @ [CHR 0x22])
     = Some (JStr [CHR 0xC3, CHR 0xA9, CHR 0x0A])"
  "JSON_parse ''{\"apiKey\": }'' = None"
  "JSON_parse ''{\"apiKey\": \"k\",}'' = None"
  "JSON_parse ''[01]'' = None"
  "JSON_parse ''{} x'' = None"
  "JSON_parse [] = None"
  by code_simp+

text \<open>\<open>trim\<close> on some strings.\<close>

lemma js_trim_examples:
  "js_trim ''  v0_key  '' = ''v0_key''"
  "js_trim [CHR 0x09, CHR ''a'', CHR 0x20, CHR ''b'', CHR 0x0D, CHR 0x0A] = ''a b''"
  "js_trim [CHR 0xE2, CHR 0x80, CHR 0x83, CHR ''k'', CHR 0xEF, CHR 0xBB, CHR 0xBF] = ''k''"
  "js_trim [CHR 0x20, CHR 0xC2, CHR 0xA0, CHR 0x09] = []"
  by (simp_all add: js_trim_def white_space_def)

section \<open>The credential and link store\<close>

lemmas action_defs = await_def return_def throw_def process_exit_def emit_def console_log_def
  console_error_def JSON_parse_text_def read_prop_def Bun_file_exists_def Bun_file_text_def
  Bun_write_def shell_rm_def existsSync_CONFIG_DIR_def mkdirSync_CONFIG_DIR_def
  process_env_V0_API_KEY_def rl_question_def Glob_scan_def fileHandle_text_def createClient_def
  call_def client_user_get_def client_chats_find_def client_chats_delete_def client_chats_init_def
  client_chats_sendMessage_def



text \<open>
  C6. For every project id and every world, \<open>writeProjectLink(projectId)\<close> followed by
  \<open>readProjectLink()\<close> returns \<open>{projectId}\<close>; \<open>removeProjectLink()\<close> followed by
  \<open>readProjectLink()\<close> returns \<open>null\<close>; and \<open>removeProjectLink()\<close> changes nothing when
  the marker file does not exist.
\<close>

theorem project_link_roundtrip:
  "fst (await (writeProjectLink projectId) (\<lambda>_. readProjectLink) w)
     = Ok (JObj [(''projectId'', JStr projectId)])
   \<and> fst (await removeProjectLink (\<lambda>_. readProjectLink) w) = Ok JNull
   \<and> (files w PROJECT_FILE = None \<longrightarrow> removeProjectLink w = (Ok (), w))"
  by (simp add: writeProjectLink_def readProjectLink_def removeProjectLink_def action_defs
        JSON_roundtrip_single_member)

theorem project_link_roundtrip_witness:
  "fst (await (writeProjectLink ''proj_123'') (\<lambda>_. readProjectLink) example_world)
     = Ok (JObj [(''projectId'', JStr ''proj_123'')])
   \<and> fst (await removeProjectLink (\<lambda>_. readProjectLink) example_world) = Ok JNull
   \<and> files example_world PROJECT_FILE = None
   \<and> removeProjectLink example_world = (Ok (), example_world)"
  using project_link_roundtrip [of "''proj_123''" example_world]
  by (simp add: example_world_def)

section \<open>login\<close>

lemma assign_prop_world: "assign_prop c k v w = (r, w') \<Longrightarrow> w' = w"
  by (cases c) (auto simp: action_defs)

text \<open>
  C10. For every run of \<open>login\<close> in which the line entered trims to the empty string,
  the command prints \<open>API key cannot be empty\<close> on the error stream and exits with code 1;
  nothing else happens after the prompt: no client is constructed, no request is made, and
  the config file and directory are as they were.
\<close>

theorem login_empty_key_exits:
  assumes "js_trim (terminal_line w) = []"
  shows "withErrorHandling (login svc) () w =
           (Exit 1, w\<lparr>trace := trace w @ [Question ''Enter your V0 API key: '',
                                          ConsoleError (JStr ''API key cannot be empty'')]\<rparr>)"
  using assms by (simp add: withErrorHandling_def login_def action_defs)

theorem login_empty_key_exits_witness:
  "js_trim (terminal_line (example_world\<lparr>terminal_line := [CHR 0x20, CHR 0x09, CHR 0xC2, CHR 0xA0]\<rparr>)) = []
   \<and> withErrorHandling (login example_service) ()
         (example_world\<lparr>terminal_line := [CHR 0x20, CHR 0x09, CHR 0xC2, CHR 0xA0]\<rparr>) =
       (Exit 1, example_world\<lparr>terminal_line := [CHR 0x20, CHR 0x09, CHR 0xC2, CHR 0xA0],
                  trace := [Question ''Enter your V0 API key: '',
                            ConsoleError (JStr ''API key cannot be empty'')]\<rparr>)"
proof -
  have h: "js_trim (terminal_line
             (example_world\<lparr>terminal_line := [CHR 0x20, CHR 0x09, CHR 0xC2, CHR 0xA0]\<rparr>)) = []"
    by (simp add: js_trim_def white_space_def)
  show ?thesis
    using h login_empty_key_exits [OF h, of example_service] by (simp add: example_world_def)
qed

text \<open>
  C4. For every run of \<open>login\<close>, with \<open>key\<close> the trimmed line: when the validation call
  \<open>client.user.get()\<close> throws, the command exits with code 1 and the config file and
  directory are as they were; when the config file or directory has changed, the key was
  not empty, the validation call was made and it succeeded; and when the validation
  succeeds for a non-empty key and the stored config is an object, the command succeeds
  and has written the config file, which for a plain stored object and an ASCII key holds
  that object with \<open>apiKey\<close> set to the key.
\<close>

theorem login_persists_only_validated_key:
  "(let key = js_trim (terminal_line w); r = withErrorHandling (login svc) () w in
     (\<forall>e. user_get svc (JStr key) = Inl e \<longrightarrow>
        fst r = Exit 1 \<and> files (snd r) = files w
        \<and> config_dir_exists (snd r) = config_dir_exists w)
   \<and> (files (snd r) \<noteq> files w \<or> config_dir_exists (snd r) \<noteq> config_dir_exists w \<longrightarrow>
        key \<noteq> [] \<and> (\<exists>u. user_get svc (JStr key) = Inr u)
        \<and> Request (JStr key) UserGet \<in> set (trace (snd r)))
   \<and> (\<forall>u ps. key \<noteq> [] \<and> user_get svc (JStr key) = Inr u
          \<and> stored_config w = Some (JObj ps) \<longrightarrow>
        fst r = Ok () \<and> config_dir_exists (snd r) \<and> files (snd r) CONFIG_FILE \<noteq> None
        \<and> files (snd r) PROJECT_FILE = files w PROJECT_FILE
        \<and> (plain (JObj ps) \<and> is_ascii key \<longrightarrow>
             files (snd r) CONFIG_FILE =
               Some (JSON_stringify (JObj (set_prop ps ''apiKey'' (JStr key)))))))"
  unfolding Let_def
proof (intro conjI allI impI)
  fix e assume "user_get svc (JStr (js_trim (terminal_line w))) = Inl e"
  then show "fst (withErrorHandling (login svc) () w) = Exit 1"
    "files (snd (withErrorHandling (login svc) () w)) = files w"
    "config_dir_exists (snd (withErrorHandling (login svc) () w)) = config_dir_exists w"
    by (simp_all add: withErrorHandling_def login_def action_defs Let_def)
next
  assume a: "files (snd (withErrorHandling (login svc) () w)) \<noteq> files w
         \<or> config_dir_exists (snd (withErrorHandling (login svc) () w)) \<noteq> config_dir_exists w"
  then show "js_trim (terminal_line w) \<noteq> []"
    by (auto simp: withErrorHandling_def login_def action_defs)
  from a show "\<exists>u. user_get svc (JStr (js_trim (terminal_line w))) = Inr u"
    by (cases "user_get svc (JStr (js_trim (terminal_line w)))")
       (auto simp: withErrorHandling_def login_def action_defs Let_def split: if_splits)
  from a show "Request (JStr (js_trim (terminal_line w))) UserGet
                 \<in> set (trace (snd (withErrorHandling (login svc) () w)))"
    apply (simp add: withErrorHandling_def login_def Let_def)
    apply (auto simp: action_defs readConfig_def writeConfig_def dest!: assign_prop_world
             split: if_splits sum.splits option.splits prod.splits outcome.splits)
    done
next
  fix u ps
  assume h: "js_trim (terminal_line w) \<noteq> []
      \<and> user_get svc (JStr (js_trim (terminal_line w))) = Inr u
      \<and> stored_config w = Some (JObj ps)"
  then have run: "fst (withErrorHandling (login svc) () w) = Ok ()"
    "files (snd (withErrorHandling (login svc) () w)) =
       (files w)(CONFIG_FILE :=
          Some (stringify [] (JObj (set_prop ps ''apiKey'' (JStr (js_trim (terminal_line w)))))))"
    "config_dir_exists (snd (withErrorHandling (login svc) () w))"
    by (auto simp: withErrorHandling_def login_def action_defs Let_def stored_config_def
          readConfig_def writeConfig_def JSON_stringify_def split: option.splits)
  from run(1) show "fst (withErrorHandling (login svc) () w) = Ok ()" .
  from run(3) show "config_dir_exists (snd (withErrorHandling (login svc) () w))" .
  from run(2) show "files (snd (withErrorHandling (login svc) () w)) CONFIG_FILE \<noteq> None"
    by simp
  from run(2) show "files (snd (withErrorHandling (login svc) () w)) PROJECT_FILE
                      = files w PROJECT_FILE"
    by simp
  from run(2) show "files (snd (withErrorHandling (login svc) () w)) CONFIG_FILE =
      Some (JSON_stringify (JObj (set_prop ps ''apiKey'' (JStr (js_trim (terminal_line w))))))"
    by (simp add: JSON_stringify_def)
qed

theorem login_persists_only_validated_key_witness:
  "user_get failing_service (JStr ''v0_bad'') =
     Inl (JObj [(''error'', JObj [(''type'', JStr ''unauthorized_error''),
                                  (''message'', JStr ''Invalid API key'')])])
   \<and> fst (withErrorHandling (login failing_service) ()
            (example_world\<lparr>terminal_line := ''v0_bad''\<rparr>)) = Exit 1
   \<and> files (snd (withErrorHandling (login failing_service) ()
                   (example_world\<lparr>terminal_line := ''v0_bad''\<rparr>))) CONFIG_FILE = None
   \<and> \<not> config_dir_exists (snd (withErrorHandling (login failing_service) ()
                                  (example_world\<lparr>terminal_line := ''v0_bad''\<rparr>)))
   \<and> user_get example_service (JStr ''v0_key'') = Inr (JObj [(''id'', JStr ''u1'')])
   \<and> stored_config (example_world\<lparr>terminal_line := '' v0_key ''\<rparr>) = Some (JObj [])
   \<and> plain (JObj []) \<and> is_ascii ''v0_key''
   \<and> fst (withErrorHandling (login example_service) ()
            (example_world\<lparr>terminal_line := '' v0_key ''\<rparr>)) = Ok ()
   \<and> files (snd (withErrorHandling (login example_service) ()
                   (example_world\<lparr>terminal_line := '' v0_key ''\<rparr>))) CONFIG_FILE
       = Some (JSON_stringify (JObj [(''apiKey'', JStr ''v0_key'')]))
   \<and> files (snd (withErrorHandling (login example_service) ()
                   (example_world\<lparr>terminal_line := '' v0_key ''\<rparr>)))
       \<noteq> files (example_world\<lparr>terminal_line := '' v0_key ''\<rparr>)
   \<and> Request (JStr ''v0_key'') UserGet
       \<in> set (trace (snd (withErrorHandling (login example_service) ()
                            (example_world\<lparr>terminal_line := '' v0_key ''\<rparr>))))"
proof -
  let ?bad = "example_world\<lparr>terminal_line := ''v0_bad''\<rparr>"
  let ?good = "example_world\<lparr>terminal_line := '' v0_key ''\<rparr>"
  have trim_bad: "js_trim (terminal_line ?bad) = ''v0_bad''"
    by (simp add: js_trim_def white_space_def)
  have trim_key: "js_trim (terminal_line ?good) = ''v0_key''"
    by (simp add: js_trim_def white_space_def)
  have fails: "user_get failing_service (JStr ''v0_bad'') =
     Inl (JObj [(''error'', JObj [(''type'', JStr ''unauthorized_error''),
                                  (''message'', JStr ''Invalid API key'')])])"
    by (simp add: failing_service_def example_service_def)
  have succeeds: "user_get example_service (JStr ''v0_key'') = Inr (JObj [(''id'', JStr ''u1'')])"
    by (simp add: example_service_def)
  have stored: "stored_config ?good = Some (JObj [])"
    by (simp add: stored_config_def example_world_def)
  have ascii: "plain (JObj [])" "is_ascii ''v0_key''"
    by (simp_all add: is_ascii_def)
  have before: "files ?bad CONFIG_FILE = None" "\<not> config_dir_exists ?bad"
    "files ?good CONFIG_FILE = None"
    by (simp_all add: example_world_def)
  note bad = login_persists_only_validated_key [of ?bad failing_service, unfolded Let_def trim_bad]
  note good = login_persists_only_validated_key [of ?good example_service, unfolded Let_def trim_key]
  from bad fails before
  have b: "fst (withErrorHandling (login failing_service) () ?bad) = Exit 1"
    "files (snd (withErrorHandling (login failing_service) () ?bad)) CONFIG_FILE = None"
    "\<not> config_dir_exists (snd (withErrorHandling (login failing_service) () ?bad))"
    by simp_all
  from good succeeds stored ascii
  have g: "fst (withErrorHandling (login example_service) () ?good) = Ok ()"
    "files (snd (withErrorHandling (login example_service) () ?good)) CONFIG_FILE
       = Some (JSON_stringify (JObj (set_prop [] ''apiKey'' (JStr ''v0_key''))))"
    by blast+
  from g(2) before(3)
  have changed: "files (snd (withErrorHandling (login example_service) () ?good)) \<noteq> files ?good"
    by (metis option.distinct(1))
  with good have req: "Request (JStr ''v0_key'') UserGet
       \<in> set (trace (snd (withErrorHandling (login example_service) () ?good)))"
    by blast
  have set: "set_prop [] ''apiKey'' (JStr ''v0_key'') = [(''apiKey'', JStr ''v0_key'')]"
    by (simp add: set_prop_def is_array_index_def)
  from fails succeeds stored ascii b g changed req show ?thesis
    by (simp add: set)
qed

section \<open>collectFiles\<close>

lemma str_includes_sublist: "str_includes s sub = sublist sub s"
  by (induction s) (simp_all add: sublist_Cons_right)

lemma split_path_nonempty: "split_path p \<noteq> []"
  by (induction p) (auto split: list.splits)

lemma split_path_head_prefix:
  "split_path p = s # ss \<Longrightarrow> ss \<noteq> [] \<Longrightarrow> prefix (s @ ''/'') p"
proof (induction p arbitrary: s ss)
  case Nil
  then show ?case by simp
next
  case (Cons c cs)
  show ?case
  proof (cases "c = CHR ''/''")
    case True
    with Cons.prems show ?thesis by simp
  next
    case False
    obtain t ts where t: "split_path cs = t # ts"
      using split_path_nonempty [of cs] by (cases "split_path cs") auto
    with False Cons.prems have "s = c # t" "ss = ts" by simp_all
    with Cons.IH [OF t] Cons.prems(2) show ?thesis by simp
  qed
qed

lemma dir_segment_sublist:
  "d \<in> set (butlast (split_path p)) \<Longrightarrow> sublist (d @ ''/'') p"
proof (induction p)
  case Nil
  then show ?case by simp
next
  case (Cons c cs)
  obtain t ts where t: "split_path cs = t # ts"
    using split_path_nonempty [of cs] by (cases "split_path cs") auto
  show ?case
  proof (cases "c = CHR ''/''")
    case True
    with Cons.prems t have "d = [] \<or> d \<in> set (butlast (split_path cs))"
      by (auto split: if_splits)
    then show ?thesis
    proof
      assume "d = []"
      with True show ?thesis by (simp add: sublist_Cons_right)
    next
      assume "d \<in> set (butlast (split_path cs))"
      then show ?thesis using Cons.IH by (simp add: sublist_Cons_right)
    qed
  next
    case False
    with Cons.prems t have ts: "ts \<noteq> []" and d: "d = c # t \<or> d \<in> set (butlast ts)"
      by (auto split: if_splits)
    from d show ?thesis
    proof
      assume "d = c # t"
      with split_path_head_prefix [OF t ts] show ?thesis
        by (simp add: sublist_Cons_right)
    next
      assume "d \<in> set (butlast ts)"
      with t ts have "d \<in> set (butlast (split_path cs))" by simp
      then show ?thesis using Cons.IH by (simp add: sublist_Cons_right)
    qed
  qed
qed

lemma dir_segment_skipped:
  "has_dir_segment p ''node_modules'' \<or> has_dir_segment p ''.git'' \<Longrightarrow> skipped p"
  using dir_segment_sublist [of "''node_modules''" p] dir_segment_sublist [of "''.git''" p]
  by (auto simp: has_dir_segment_def skipped_def str_includes_sublist)

lemma first_occurrences_distinct: "distinct xs \<Longrightarrow> first_occurrences xs = xs"
  by (simp add: first_occurrences_def distinct_remdups_id)

lemma first_occurrences_seen:
  assumes "x \<in> set a"
  shows "first_occurrences (a @ x # r) = first_occurrences (a @ r)"
proof -
  have "remdups (rev r @ x # rev a) = remdups (rev r @ remdups (x # rev a))"
    by (simp only: remdups_append2)
  also have "\<dots> = remdups (rev r @ remdups (rev a))"
    using assms by simp
  also have "\<dots> = remdups (rev r @ rev a)"
    by (simp only: remdups_append2)
  finally show ?thesis by (simp add: first_occurrences_def)
qed

lemma first_occurrences_append:
  "first_occurrences (first_occurrences xs @ ys) = first_occurrences (xs @ ys)"
  by (simp add: first_occurrences_def remdups_append2)

lemma scan_loop_spec:
  assumes "scan_loop ms st w = (Ok st', w')"
    and "snd st = set (map name (fst st))"
    and "distinct (map name (fst st))"
    and "\<forall>f\<in>set (fst st). \<not> skipped (name f) \<and> tree_text w (name f) = Inr (content f)"
  shows "w' = w \<and> snd st' = set (map name (fst st')) \<and> distinct (map name (fst st'))
       \<and> (\<forall>f\<in>set (fst st'). \<not> skipped (name f) \<and> tree_text w (name f) = Inr (content f))
       \<and> map name (fst st') = first_occurrences (map name (fst st) @ filter (\<lambda>m. \<not> skipped m) ms)"
  using assms
proof (induction ms arbitrary: st)
  case Nil
  then show ?case by (simp add: return_def first_occurrences_distinct)
next
  case (Cons m ms)
  show ?case
  proof (cases "skipped m")
    case True
    with Cons.prems(1) have run: "scan_loop ms st w = (Ok st', w')" by simp
    from True have eq: "filter (\<lambda>m. \<not> skipped m) (m # ms) = filter (\<lambda>m. \<not> skipped m) ms"
      by simp
    show ?thesis unfolding eq by (rule Cons.IH [OF run Cons.prems(2-4)])
  next
    case False
    show ?thesis
    proof (cases "m \<in> snd st")
      case True
      with False Cons.prems(1) have run: "scan_loop ms st w = (Ok st', w')" by simp
      from False True Cons.prems(2)
      have eq: "first_occurrences (map name (fst st) @ filter (\<lambda>m. \<not> skipped m) (m # ms))
                = first_occurrences (map name (fst st) @ filter (\<lambda>m. \<not> skipped m) ms)"
        by (simp add: first_occurrences_seen)
      show ?thesis unfolding eq by (rule Cons.IH [OF run Cons.prems(2-4)])
    next
      case notin: False
      from False notin Cons.prems(1) obtain body where
        body: "tree_text w m = Inr body" and
        run: "scan_loop ms (fst st @ [\<lparr>name = m, content = body\<rparr>], insert m (snd st)) w = (Ok st', w')"
        by (auto simp: await_def fileHandle_text_def split: sum.splits)
      from False
      have eq: "map name (fst st) @ filter (\<lambda>m. \<not> skipped m) (m # ms)
                = map name (fst (fst st @ [\<lparr>name = m, content = body\<rparr>], insert m (snd st)))
                  @ filter (\<lambda>m. \<not> skipped m) ms"
        by simp
      show ?thesis unfolding eq
        using Cons.prems(2-4) False notin body
        by (intro Cons.IH [OF run]) auto
    qed
  qed
qed

lemma pattern_loop_spec:
  assumes "pattern_loop ps st w = (Ok st', w')"
    and "snd st = set (map name (fst st))"
    and "distinct (map name (fst st))"
    and "\<forall>f\<in>set (fst st). \<not> skipped (name f) \<and> tree_text w (name f) = Inr (content f)"
  shows "w' = w \<and> snd st' = set (map name (fst st')) \<and> distinct (map name (fst st'))
       \<and> (\<forall>f\<in>set (fst st'). \<not> skipped (name f) \<and> tree_text w (name f) = Inr (content f))
       \<and> map name (fst st') = first_occurrences (map name (fst st)
            @ filter (\<lambda>m. \<not> skipped m) (concat (map (glob_scan w) ps)))"
  using assms
proof (induction ps arbitrary: st)
  case Nil
  then show ?case by (simp add: return_def first_occurrences_distinct)
next
  case (Cons p ps)
  from Cons.prems(1) obtain st1 w1 where
    scan: "scan_loop (glob_scan w p) st w = (Ok st1, w1)" and
    rest: "pattern_loop ps st1 w1 = (Ok st', w')"
    by (auto simp: await_def Glob_scan_def split: prod.splits outcome.splits)
  note s1 = scan_loop_spec [OF scan Cons.prems(2-4)]
  from s1 have w1: "w1 = w" by (rule conjunct1)
  from s1 have seen1: "snd st1 = set (map name (fst st1))" by blast
  from s1 have dist1: "distinct (map name (fst st1))" by blast
  from s1 have inv1: "\<forall>f\<in>set (fst st1). \<not> skipped (name f) \<and> tree_text w (name f) = Inr (content f)"
    by blast
  from s1 have names1: "map name (fst st1) = first_occurrences (map name (fst st)
            @ filter (\<lambda>m. \<not> skipped m) (glob_scan w p))" by blast
  note s2 = Cons.IH [OF rest [unfolded w1] seen1 dist1 inv1]
  have eq: "first_occurrences (map name (fst st) @ filter (\<lambda>m. \<not> skipped m) (concat (map (glob_scan w) (p # ps))))
      = first_occurrences (map name (fst st1) @ filter (\<lambda>m. \<not> skipped m) (concat (map (glob_scan w) ps)))"
    unfolding names1 by (simp add: first_occurrences_append)
  show ?case unfolding eq by (rule s2)
qed


text \<open>
  C7. For every sequence of patterns and every world in which \<open>collectFiles\<close> returns:
  no returned name contains \<open>node_modules/\<close> or \<open>.git/\<close>, hence none has a directory
  segment \<open>node_modules\<close> or \<open>.git\<close>, whatever the patterns match; the returned names
  are distinct; they are the matches of the patterns in order (pattern by pattern, scan
  order within a pattern) without the skipped ones, each kept where it occurs first; and
  the content of each is the text read from the file of that name.
\<close>

theorem collectFiles_names:
  assumes "collectFiles patterns w = (Ok result, w')"
  shows "(\<forall>f\<in>set result.
            \<not> str_includes (name f) ''node_modules/'' \<and> \<not> str_includes (name f) ''.git/''
            \<and> \<not> has_dir_segment (name f) ''node_modules'' \<and> \<not> has_dir_segment (name f) ''.git''
            \<and> tree_text w (name f) = Inr (content f))
       \<and> distinct (map name result)
       \<and> map name result =
           first_occurrences (filter (\<lambda>file. \<not> skipped file) (concat (map (glob_scan w) patterns)))"
proof -
  from assms obtain st where
    run: "pattern_loop patterns ([], {}) w = (Ok st, w')" and result: "result = fst st"
    by (auto simp: collectFiles_def await_def return_def split: prod.splits outcome.splits)
  have spec: "w' = w \<and> snd st = set (map name (fst st)) \<and> distinct (map name (fst st))
       \<and> (\<forall>f\<in>set (fst st). \<not> skipped (name f) \<and> tree_text w (name f) = Inr (content f))
       \<and> map name (fst st) = first_occurrences (map name (fst ([] :: FileContent list, {} :: string set))
            @ filter (\<lambda>m. \<not> skipped m) (concat (map (glob_scan w) patterns)))"
    by (rule pattern_loop_spec [OF run]) simp_all
  from spec have inv: "\<forall>f\<in>set result. \<not> skipped (name f) \<and> tree_text w (name f) = Inr (content f)"
    unfolding result by blast
  from spec have dist: "distinct (map name result)" unfolding result by blast
  from spec have names: "map name result =
      first_occurrences (filter (\<lambda>file. \<not> skipped file) (concat (map (glob_scan w) patterns)))"
    unfolding result by simp
  from inv have "\<forall>f\<in>set result.
            \<not> str_includes (name f) ''node_modules/'' \<and> \<not> str_includes (name f) ''.git/''
            \<and> \<not> has_dir_segment (name f) ''node_modules'' \<and> \<not> has_dir_segment (name f) ''.git''
            \<and> tree_text w (name f) = Inr (content f)"
    using dir_segment_skipped by (auto simp: skipped_def)
  with dist names show ?thesis by blast
qed


theorem collectFiles_names_witness:
  "collectFiles [''**/*.ts'', ''*.ts''] ts_world =
     (Ok [\<lparr>name = ''a.ts'', content = ''// a.ts''\<rparr>, \<lparr>name = ''b.ts'', content = ''// b.ts''\<rparr>,
          \<lparr>name = ''c.ts'', content = ''// c.ts''\<rparr>], ts_world)
   \<and> [''a.ts'', ''b.ts'', ''c.ts''] =
       first_occurrences (filter (\<lambda>file. \<not> skipped file)
         (concat (map (glob_scan ts_world) [''**/*.ts'', ''*.ts''])))
   \<and> \<not> has_dir_segment ''a.ts'' ''node_modules''"
proof -
  have run: "collectFiles [''**/*.ts'', ''*.ts''] ts_world =
     (Ok [\<lparr>name = ''a.ts'', content = ''// a.ts''\<rparr>, \<lparr>name = ''b.ts'', content = ''// b.ts''\<rparr>,
          \<lparr>name = ''c.ts'', content = ''// c.ts''\<rparr>], ts_world)"
    by (simp add: collectFiles_def ts_world_def example_world_def skipped_def action_defs)
  show ?thesis
    using run collectFiles_names [OF run] by simp
qed


lemma scan_loop_world: "scan_loop ms st w = (r, w') \<Longrightarrow> w' = w"
proof (induction ms arbitrary: st)
  case Nil
  then show ?case by (simp add: return_def)
next
  case (Cons m ms)
  then show ?case
    by (auto simp: await_def fileHandle_text_def split: if_splits sum.splits)
qed

lemma pattern_loop_world: "pattern_loop ps st w = (r, w') \<Longrightarrow> w' = w"
proof (induction ps arbitrary: st)
  case Nil
  then show ?case by (simp add: return_def)
next
  case (Cons p ps)
  then show ?case
    by (auto simp: await_def Glob_scan_def split: prod.splits outcome.splits dest: scan_loop_world)
qed

lemma collectFiles_world: "collectFiles patterns w = (r, w') \<Longrightarrow> w' = w"
  by (auto simp: collectFiles_def await_def return_def split: prod.splits outcome.splits
        dest: pattern_loop_world)



section \<open>chat init\<close>

text \<open>
  C3. For every run of \<open>chat init\<close> in which the collected file list is empty (no
  pattern, or patterns that match no file that is kept), the command prints an error and
  exits with code 1, and nothing else has happened: the trace has one more line on the
  error stream, no client was constructed and no request was made.
\<close>

theorem chat_init_no_files_exits:
  assumes "fst (collectFiles patterns w) = Ok []"
  shows "withErrorHandling (chat_init svc) (patterns, opts) w =
           (Exit 1, w\<lparr>trace := trace w @
              [ConsoleError (JStr (if patterns = [] then ''No file patterns provided''
                                   else ''No files found matching patterns''))]\<rparr>)
       \<and> filter is_network (trace (snd (withErrorHandling (chat_init svc) (patterns, opts) w)))
           = filter is_network (trace w)"
proof -
  obtain w' where run: "collectFiles patterns w = (Ok [], w')"
    using assms by (cases "collectFiles patterns w") auto
  have w': "w' = w" using run by (rule collectFiles_world)
  have eq: "withErrorHandling (chat_init svc) (patterns, opts) w =
           (Exit 1, w\<lparr>trace := trace w @
              [ConsoleError (JStr (if patterns = [] then ''No file patterns provided''
                                   else ''No files found matching patterns''))]\<rparr>)"
  proof (cases "patterns = []")
    case True
    then show ?thesis
      by (simp add: withErrorHandling_def chat_init_def Let_def action_defs)
  next
    case False
    then show ?thesis
      by (simp add: withErrorHandling_def chat_init_def Let_def action_defs run [unfolded w'])
  qed
  show ?thesis unfolding eq by simp
qed



theorem chat_init_no_files_exits_witness:
  "fst (collectFiles [''*.md''] ts_world) = Ok []
   \<and> withErrorHandling (chat_init example_service)
        ([''*.md''], \<lparr>message = None, project = True, init_json = False\<rparr>) ts_world =
       (Exit 1, ts_world\<lparr>trace := [ConsoleError (JStr ''No files found matching patterns'')]\<rparr>)"
proof -
  have h: "fst (collectFiles [''*.md''] ts_world) = Ok []"
    by (simp add: collectFiles_def ts_world_def example_world_def action_defs)
  show ?thesis
    using h chat_init_no_files_exits [OF h, of example_service "\<lparr>message = None, project = True, init_json = False\<rparr>"]
    by (simp add: ts_world_def example_world_def)
qed

section \<open>Credential resolution\<close>

lemma stored_key: "stored_config stored_key_world = Some (JObj [(''apiKey'', JStr ''stored'')])"
  unfolding stored_config_def stored_key_world_def by code_simp

lemma readConfig_stored:
  "readConfig w = (case stored_config w of None \<Rightarrow> (Throw SyntaxError, w) | Some c \<Rightarrow> (Ok c, w))"
  by (simp add: readConfig_def stored_config_def action_defs split: option.splits)

text \<open>
  C1 (as the code has it). For every world: when \<open>V0_API_KEY\<close> is set to a non-empty
  string, \<open>resolveApiKeyWithConfig\<close> returns it and \<open>getClient\<close> constructs the client
  with it, whatever the config file holds; when the variable is absent or empty and the
  \<open>apiKey\<close> of the stored config is a non-empty string, that string is returned and
  used for the client; when the variable is absent or empty and the \<open>apiKey\<close> of the
  stored config is missing, \<open>null\<close>, \<open>false\<close> or the empty string (the config of an
  absent file is \<open>{}\<close>), the no-API-key error is thrown and no client is constructed.
\<close>

theorem resolve_api_key:
  "(\<forall>k. env_V0_API_KEY w = Some k \<and> k \<noteq> [] \<longrightarrow>
       resolveApiKeyWithConfig w = (Ok (JStr k), w)
       \<and> getClient w = (Ok (JStr k), w\<lparr>trace := trace w @ [CreateClient (JStr k)]\<rparr>))
   \<and> (\<forall>config k. (env_V0_API_KEY w = None \<or> env_V0_API_KEY w = Some [])
          \<and> stored_config w = Some config \<and> get_prop config ''apiKey'' = Some (Some (JStr k))
          \<and> k \<noteq> [] \<longrightarrow>
       resolveApiKeyWithConfig w = (Ok (JStr k), w)
       \<and> getClient w = (Ok (JStr k), w\<lparr>trace := trace w @ [CreateClient (JStr k)]\<rparr>))
   \<and> (\<forall>config apiKey. (env_V0_API_KEY w = None \<or> env_V0_API_KEY w = Some [])
          \<and> stored_config w = Some config \<and> get_prop config ''apiKey'' = Some apiKey
          \<and> (apiKey = None \<or> apiKey = Some JNull \<or> apiKey = Some (JBool False)
               \<or> apiKey = Some (JStr [])) \<longrightarrow>
       resolveApiKeyWithConfig w = (Throw no_api_key, w)
       \<and> getClient w = (Throw no_api_key, w))"
  by (auto simp: getClient_def resolveApiKeyWithConfig_def readConfig_stored action_defs)

theorem resolve_api_key_witness:
  "env_V0_API_KEY (stored_key_world\<lparr>env_V0_API_KEY := Some ''from_env''\<rparr>) = Some ''from_env''
   \<and> getClient (stored_key_world\<lparr>env_V0_API_KEY := Some ''from_env''\<rparr>)
       = (Ok (JStr ''from_env''),
          stored_key_world\<lparr>env_V0_API_KEY := Some ''from_env'',
            trace := trace stored_key_world @ [CreateClient (JStr ''from_env'')]\<rparr>)
   \<and> env_V0_API_KEY stored_key_world = None
   \<and> stored_config stored_key_world = Some (JObj [(''apiKey'', JStr ''stored'')])
   \<and> resolveApiKeyWithConfig stored_key_world = (Ok (JStr ''stored''), stored_key_world)
   \<and> env_V0_API_KEY example_world = None
   \<and> stored_config example_world = Some (JObj [])
   \<and> getClient example_world = (Throw no_api_key, example_world)"
proof -
  have env: "env_V0_API_KEY stored_key_world = None" "env_V0_API_KEY example_world = None"
    by (simp_all add: stored_key_world_def example_world_def)
  have empty: "stored_config example_world = Some (JObj [])"
    by (simp add: stored_config_def example_world_def)
  show ?thesis
    using resolve_api_key [of "stored_key_world\<lparr>env_V0_API_KEY := Some ''from_env''\<rparr>"]
      resolve_api_key [of stored_key_world] resolve_api_key [of example_world]
      env empty stored_key
    by simp
qed

text \<open>A variable that is set is not always used: where it is set to the empty string,
  the stored key is returned.\<close>

theorem env_key_empty_falls_back:
  "env_V0_API_KEY (stored_key_world\<lparr>env_V0_API_KEY := Some []\<rparr>) = Some []
   \<and> resolveApiKeyWithConfig (stored_key_world\<lparr>env_V0_API_KEY := Some []\<rparr>)
       = (Ok (JStr ''stored''), stored_key_world\<lparr>env_V0_API_KEY := Some []\<rparr>)"
proof -
  have "stored_config (stored_key_world\<lparr>env_V0_API_KEY := Some []\<rparr>)
          = Some (JObj [(''apiKey'', JStr ''stored'')])"
    using stored_key by (simp add: stored_config_def)
  then show ?thesis
    by (simp add: resolveApiKeyWithConfig_def readConfig_stored action_defs)
qed

section \<open>Error classification\<close>

text \<open>
  C2 (as the code has it). For every handler, arguments and world: when the handler throws
  an error with \<open>error.error.type === "not_found_error"\<close>, the wrapper prints
  \<open>Not found: \<close> followed by \<open>error.error.message\<close> on the error stream, as the
  remote service worded it, and ends the process with exit code 1.
\<close>

theorem not_found_message:
  assumes "fn args w = (Throw error, w')"
    and "error_type error = Some (JStr ''not_found_error'')"
  shows "withErrorHandling fn args w =
           (Exit 1, w'\<lparr>trace := trace w' @
              [ConsoleError (JStr (''Not found: ''
                 @ js_toString (opt_chain (opt_chain (Some error) ''error'') ''message'')))]\<rparr>)"
  using assms by (simp add: withErrorHandling_def action_defs)

theorem not_found_message_witness:
  "chat_delete not_found_service ''chat_1'' (example_world\<lparr>env_V0_API_KEY := Some ''k''\<rparr>)
     = (Throw (JObj [(''error'', JObj [(''type'', JStr ''not_found_error''),
                                       (''message'', JStr ''Chat not found'')])]),
        example_world\<lparr>env_V0_API_KEY := Some ''k'',
          trace := [CreateClient (JStr ''k''),
                    Request (JStr ''k'') (ChatsDelete (JObj [(''chatId'', JStr ''chat_1'')]))]\<rparr>)
   \<and> withErrorHandling (chat_delete not_found_service) ''chat_1''
         (example_world\<lparr>env_V0_API_KEY := Some ''k''\<rparr>)
       = (Exit 1, example_world\<lparr>env_V0_API_KEY := Some ''k'',
            trace := [CreateClient (JStr ''k''),
                      Request (JStr ''k'') (ChatsDelete (JObj [(''chatId'', JStr ''chat_1'')])),
                      ConsoleError (JStr ''Not found: Chat not found'')]\<rparr>)"
proof -
  have thrown: "chat_delete not_found_service ''chat_1'' (example_world\<lparr>env_V0_API_KEY := Some ''k''\<rparr>)
     = (Throw (JObj [(''error'', JObj [(''type'', JStr ''not_found_error''),
                                       (''message'', JStr ''Chat not found'')])]),
        example_world\<lparr>env_V0_API_KEY := Some ''k'',
          trace := [CreateClient (JStr ''k''),
                    Request (JStr ''k'') (ChatsDelete (JObj [(''chatId'', JStr ''chat_1'')]))]\<rparr>)"
    by (simp add: chat_delete_def getClient_def resolveApiKeyWithConfig_def action_defs
          example_world_def example_service_def not_found_service_def)
  have tag: "error_type (JObj [(''error'', JObj [(''type'', JStr ''not_found_error''),
                                       (''message'', JStr ''Chat not found'')])])
               = Some (JStr ''not_found_error'')"
    by (simp add: error_type_def)
  show ?thesis
    using thrown
      not_found_message [of "chat_delete not_found_service" "''chat_1''"
        "example_world\<lparr>env_V0_API_KEY := Some ''k''\<rparr>", OF thrown tag]
    by simp
qed

text \<open>The printed line holds the resource identifier only if the service put it in its
  message: \<open>chat delete "missing_id"\<close> against a service that answers
  \<open>Chat not found\<close>.\<close>

theorem not_found_without_identifier:
  "withErrorHandling (chat_delete not_found_service) ''missing_id''
      (example_world\<lparr>env_V0_API_KEY := Some ''k''\<rparr>)
   = (Exit 1, example_world\<lparr>env_V0_API_KEY := Some ''k'',
        trace := [CreateClient (JStr ''k''),
                  Request (JStr ''k'') (ChatsDelete (JObj [(''chatId'', JStr ''missing_id'')])),
                  ConsoleError (JStr ''Not found: Chat not found'')]\<rparr>)
   \<and> \<not> str_includes ''Not found: Chat not found'' ''missing_id''"
  by (simp add: withErrorHandling_def chat_delete_def getClient_def resolveApiKeyWithConfig_def
        action_defs example_world_def example_service_def not_found_service_def error_type_def)

section \<open>chat list\<close>

text \<open>
  C8 (as the code has it). For every run of \<open>chat list\<close> in which the client is obtained
  and the service answers with no \<open>data\<close> or with an empty array, the command makes the
  one request and prints one line: \<open>No chats found\<close> without \<open>--json\<close>, the empty
  list \<open>[]\<close> with it.
\<close>

theorem chat_list_empty:
  assumes "getClient w = (Ok client, w1)"
    and "chats_find svc client (list_query opts) = Inr data"
    and "data = None \<or> data = Some []"
  shows "withErrorHandling (chat_list svc) opts w =
           (Ok (), w1\<lparr>trace := trace w1 @
              [Request client (ChatsFind (list_query opts)),
               ConsoleLog (JStr (if list_json opts then ''[]'' else ''No chats found''))]\<rparr>)"
  using assms
  by (auto simp: withErrorHandling_def chat_list_def list_query_def Let_def action_defs
        JSON_stringify_def)

theorem chat_list_empty_witness:
  "getClient (example_world\<lparr>env_V0_API_KEY := Some ''k''\<rparr>)
     = (Ok (JStr ''k''), example_world\<lparr>env_V0_API_KEY := Some ''k'', trace := [CreateClient (JStr ''k'')]\<rparr>)
   \<and> chats_find example_service (JStr ''k'')
         (list_query \<lparr>limit = Some (JNum ''2''), favorites = True, list_json = False\<rparr>) = Inr (Some [])
   \<and> list_query \<lparr>limit = Some (JNum ''2''), favorites = True, list_json = False\<rparr>
       = JObj [(''limit'', JNum ''2''), (''favorite'', JBool True)]
   \<and> withErrorHandling (chat_list example_service)
         \<lparr>limit = Some (JNum ''2''), favorites = True, list_json = False\<rparr>
         (example_world\<lparr>env_V0_API_KEY := Some ''k''\<rparr>)
       = (Ok (), example_world\<lparr>env_V0_API_KEY := Some ''k'',
            trace := [CreateClient (JStr ''k''),
                      Request (JStr ''k'') (ChatsFind (JObj [(''limit'', JNum ''2''), (''favorite'', JBool True)])),
                      ConsoleLog (JStr ''No chats found'')]\<rparr>)"
proof -
  have client: "getClient (example_world\<lparr>env_V0_API_KEY := Some ''k''\<rparr>)
     = (Ok (JStr ''k''), example_world\<lparr>env_V0_API_KEY := Some ''k'', trace := [CreateClient (JStr ''k'')]\<rparr>)"
    by (simp add: getClient_def resolveApiKeyWithConfig_def action_defs example_world_def)
  have query: "list_query \<lparr>limit = Some (JNum ''2''), favorites = True, list_json = False\<rparr>
       = JObj [(''limit'', JNum ''2''), (''favorite'', JBool True)]"
    by (simp add: list_query_def set_prop_def is_array_index_def num_is_zero_def is_digit_def)
  have found: "chats_find example_service (JStr ''k'')
         (list_query \<lparr>limit = Some (JNum ''2''), favorites = True, list_json = False\<rparr>) = Inr (Some [])"
    by (simp add: example_service_def)
  show ?thesis
    using client query found
      chat_list_empty [OF client found]
    by simp
qed

text \<open>With \<open>--json\<close> an empty result is printed as the empty list \<open>[]\<close>.\<close>

theorem chat_list_json_empty:
  "withErrorHandling (chat_list example_service) \<lparr>limit = None, favorites = False, list_json = True\<rparr>
      (example_world\<lparr>env_V0_API_KEY := Some ''k''\<rparr>)
   = (Ok (), example_world\<lparr>env_V0_API_KEY := Some ''k'',
        trace := [CreateClient (JStr ''k''), Request (JStr ''k'') (ChatsFind (JObj [])),
                  ConsoleLog (JStr ''[]'')]\<rparr>)
   \<and> ConsoleLog (JStr ''No chats found'')
       \<notin> set (trace (snd (withErrorHandling (chat_list example_service)
                \<lparr>limit = None, favorites = False, list_json = True\<rparr>
                (example_world\<lparr>env_V0_API_KEY := Some ''k''\<rparr>))))"
  by (simp add: withErrorHandling_def chat_list_def Let_def action_defs getClient_def resolveApiKeyWithConfig_def
     example_world_def example_service_def JSON_stringify_def)

section \<open>logout\<close>




end
